theory Spec2Isabelle
  imports Main "HOL-Library.Word"
begin

chapter \<open>The embedding\<close>

section \<open>JavaScript values shared by the modules\<close>

text \<open>
  A thrown value is an instance of one of the error classes the repository uses:
  the built-in \<open>Error\<close>, and \<open>BlockchainError\<close> with its two subclasses
  (\<open>BlockchainService.ts\<close>). Each carries its message; the two transaction errors also
  carry the transaction signature. An error of a library class (the \<open>SendTransactionError\<close>
  of \<open>@solana/web3.js\<close>, a \<open>TypeError\<close>) is an instance of \<open>Error\<close> and of none of the
  three classes of the repository, and is the constructor \<open>Error\<close> here. Every \<open>throw\<close> of
  the source is the \<open>Inl\<close> branch of a sum, every \<open>try/catch\<close> a case distinction on it.
\<close>

datatype js_error =
    Error string
  | BlockchainError string
  | TransactionTimeoutError string string
  | TransactionFailedError string string

fun message :: "js_error \<Rightarrow> string" where
  "message (Error m) = m"
| "message (BlockchainError m) = m"
| "message (TransactionTimeoutError m s) = m"
| "message (TransactionFailedError m s) = m"

type_synonym bytes = "8 word list"

text \<open>Decimal rendering of a number inside a template literal.\<close>

definition digit_char :: "nat \<Rightarrow> char" where
  "digit_char d = ''0123456789'' ! d"

fun string_of_nat :: "nat \<Rightarrow> string" where
  "string_of_nat n =
     (if n < 10 then [digit_char n] else string_of_nat (n div 10) @ [digit_char (n mod 10)])"

declare string_of_nat.simps [simp del]

definition string_of_int :: "int \<Rightarrow> string" where
  "string_of_int i = (if i < 0 then CHR ''-'' # string_of_nat (nat (- i)) else string_of_nat (nat i))"

section \<open>utils/crypto.ts and solana/address-generation.ts\<close>

text \<open>
  The hash functions, the key derivation and the base58 encoding are library code
  (\<open>crypto\<close>, \<open>crypto-js\<close>, \<open>@solana/web3.js\<close>); they are parameters of the model, collected
  in one record. \<open>Keypair.fromSeed\<close> may throw, so it returns a sum. The process
  environment holds \<open>NIN_SALT\<close>, which may be unset.
\<close>

record Keypair =
  publicKey :: bytes
  secretKey :: bytes

record crypto_lib =
  crypto_sha256 :: "string \<Rightarrow> bytes"
  CryptoJS_SHA256_hex :: "string \<Rightarrow> string"
  Keypair_fromSeed :: "bytes \<Rightarrow> js_error + Keypair"
  toBase58 :: "bytes \<Rightarrow> string"

record process_env =
  NIN_SALT :: "string option"

text \<open>\<open>!salt\<close> holds for an unset variable and for the empty string.\<close>

definition salt_missing :: "process_env \<Rightarrow> bool" where
  "salt_missing penv = (case NIN_SALT penv of None \<Rightarrow> True | Some s \<Rightarrow> s = [])"

definition the_salt :: "process_env \<Rightarrow> string" where
  "the_salt penv = (case NIN_SALT penv of None \<Rightarrow> [] | Some s \<Rightarrow> s)"

definition hashNIN :: "crypto_lib \<Rightarrow> process_env \<Rightarrow> string \<Rightarrow> js_error + string" where
  "hashNIN L penv nin =
     (if salt_missing penv then Inl (Error ''NIN_SALT environment variable is required'')
      else Inr (CryptoJS_SHA256_hex L (nin @ the_salt penv)))"

definition verifyNINHash :: "crypto_lib \<Rightarrow> process_env \<Rightarrow> string \<Rightarrow> string \<Rightarrow> js_error + bool" where
  "verifyNINHash L penv nin h =
     (case hashNIN L penv nin of Inl e \<Rightarrow> Inl e | Inr h' \<Rightarrow> Inr (h' = h))"

definition generateSeedFromNIN :: "crypto_lib \<Rightarrow> process_env \<Rightarrow> string \<Rightarrow> js_error + bytes" where
  "generateSeedFromNIN L penv nin =
     (if salt_missing penv then Inl (Error ''NIN_SALT environment variable is required'')
      else Inr (crypto_sha256 L (nin @ the_salt penv)))"

definition generateKeypairFromNIN :: "crypto_lib \<Rightarrow> process_env \<Rightarrow> string \<Rightarrow> js_error + Keypair" where
  "generateKeypairFromNIN L penv nin =
     (case generateSeedFromNIN L penv nin of
        Inl e \<Rightarrow> Inl e
      | Inr seed \<Rightarrow> Keypair_fromSeed L (take 32 seed))"

definition generateAddressFromNIN :: "crypto_lib \<Rightarrow> process_env \<Rightarrow> string \<Rightarrow> js_error + string" where
  "generateAddressFromNIN L penv nin =
     (case generateSeedFromNIN L penv nin of
        Inl e \<Rightarrow> Inl e
      | Inr seed \<Rightarrow>
          (case Keypair_fromSeed L (take 32 seed) of
             Inl e \<Rightarrow> Inl e
           | Inr keypair \<Rightarrow> Inr (toBase58 L (publicKey keypair))))"

definition verifyAddressForNIN :: "crypto_lib \<Rightarrow> process_env \<Rightarrow> string \<Rightarrow> string \<Rightarrow> js_error + bool" where
  "verifyAddressForNIN L penv nin address =
     (case generateAddressFromNIN L penv nin of
        Inl e \<Rightarrow> Inl e
      | Inr expectedAddress \<Rightarrow> Inr (expectedAddress = address))"

text \<open>A toy instance of the library, used to run the definitions on concrete inputs.\<close>

definition toy_digest :: "string \<Rightarrow> bytes" where
  "toy_digest s = take 32 (map (\<lambda>c. of_nat (of_char c)) s @ replicate 32 0)"

definition toy_lib :: crypto_lib where
  "toy_lib = \<lparr> crypto_sha256 = toy_digest,
               CryptoJS_SHA256_hex = (\<lambda>s. ''h:'' @ s),
               Keypair_fromSeed = (\<lambda>seed. if length seed = 32
                                      then Inr \<lparr> publicKey = rev seed, secretKey = seed @ rev seed \<rparr>
                                      else Inl (Error ''bad seed size'')),
               toBase58 = map (\<lambda>b. char_of (unat b)) \<rparr>"

definition pepper_env :: process_env where
  "pepper_env = \<lparr> NIN_SALT = Some ''pepper'' \<rparr>"

section \<open>services/NINService.ts\<close>

subsection \<open>Strings and the validation patterns\<close>

text \<open>
  Strings are lists of 8-bit characters; the model covers text in that range (Latin-1).
  \<open>trim\<close> removes white space at both ends. \<open>toUpperCase\<close> maps the letters a to z and the
  accented small letters (codes 224 to 254, but for the division sign 247) to the
  character 32 places before, and the sharp s (code 223) to the two letters SS. The two
  characters of the range whose upper-case form lies outside it (codes 181 and 255) are
  left as they are: no pattern accepts them or their upper-case forms.
\<close>

definition code_of :: "char \<Rightarrow> nat" where
  "code_of c = of_char c"

definition is_digit :: "char \<Rightarrow> bool" where
  "is_digit c = (48 \<le> code_of c \<and> code_of c \<le> 57)"

definition is_letter :: "char \<Rightarrow> bool" where
  "is_letter c = ((65 \<le> code_of c \<and> code_of c \<le> 90) \<or> (97 \<le> code_of c \<and> code_of c \<le> 122))"

definition is_space :: "char \<Rightarrow> bool" where
  "is_space c = (code_of c \<in> {9, 10, 11, 12, 13, 32, 160})"

definition trim :: "string \<Rightarrow> string" where
  "trim s = rev (dropWhile is_space (rev (dropWhile is_space s)))"

definition upper_char :: "char \<Rightarrow> string" where
  "upper_char c =
     (if (97 \<le> code_of c \<and> code_of c \<le> 122)
         \<or> (224 \<le> code_of c \<and> code_of c \<le> 254 \<and> code_of c \<noteq> 247)
      then [char_of (code_of c - 32)]
      else if code_of c = 223 then ''SS''
      else [c])"

definition toUpperCase :: "string \<Rightarrow> string" where
  "toUpperCase s = concat (map upper_char s)"

text \<open>The four regular expressions of \<open>NIN_PATTERNS\<close>, each anchored at both ends.\<close>

definition pattern_NG :: "string \<Rightarrow> bool" where
  "pattern_NG s = (length s = 11 \<and> list_all is_digit s)"

definition optional_hyphen :: "string \<Rightarrow> string" where
  "optional_hyphen s = (case s of [] \<Rightarrow> [] | c # cs \<Rightarrow> if c = CHR ''-'' then cs else s)"

definition pattern_US :: "string \<Rightarrow> bool" where
  "pattern_US s =
     (let r1 = optional_hyphen (drop 3 s); r2 = optional_hyphen (drop 2 r1) in
      length (take 3 s) = 3 \<and> list_all is_digit (take 3 s)
      \<and> length (take 2 r1) = 2 \<and> list_all is_digit (take 2 r1)
      \<and> length r2 = 4 \<and> list_all is_digit r2)"

definition pattern_UK :: "string \<Rightarrow> bool" where
  "pattern_UK s =
     (length s = 9 \<and> list_all is_letter (take 2 s)
      \<and> list_all is_digit (take 6 (drop 2 s)) \<and> list_all is_letter (drop 8 s))"

definition pattern_DEFAULT :: "string \<Rightarrow> bool" where
  "pattern_DEFAULT s =
     (8 \<le> length s \<and> length s \<le> 20 \<and> list_all (\<lambda>c. is_letter c \<or> is_digit c) s)"

text \<open>
  \<open>NIN_PATTERNS[countryCode] || NIN_PATTERNS.DEFAULT\<close>. \<open>NIN_PATTERNS\<close> is an object
  literal, so a country code that names a property inherited from \<open>Object.prototype\<close>
  finds a value that is no regular expression, and \<open>pattern.test\<close> throws.
\<close>

definition object_prototype_keys :: "string list" where
  "object_prototype_keys =
     [''constructor'', ''hasOwnProperty'', ''isPrototypeOf'', ''propertyIsEnumerable'',
      ''toLocaleString'', ''toString'', ''valueOf'', ''__proto__'', ''__defineGetter__'',
      ''__defineSetter__'', ''__lookupGetter__'', ''__lookupSetter__'']"

definition pattern_test :: "string \<Rightarrow> string \<Rightarrow> js_error + bool" where
  "pattern_test countryCode s =
     (if countryCode = ''NG'' then Inr (pattern_NG s)
      else if countryCode = ''US'' then Inr (pattern_US s)
      else if countryCode = ''UK'' then Inr (pattern_UK s)
      else if countryCode = ''DEFAULT'' then Inr (pattern_DEFAULT s)
      else if countryCode \<in> set object_prototype_keys
        then Inl (Error ''pattern.test is not a function'')
      else Inr (pattern_DEFAULT s))"

definition digit_val :: "char \<Rightarrow> nat" where
  "digit_val c = code_of c - 48"

fun parseInt_digits :: "nat \<Rightarrow> string \<Rightarrow> nat" where
  "parseInt_digits acc [] = acc"
| "parseInt_digits acc (c # cs) = parseInt_digits (10 * acc + digit_val c) cs"

fun weighted_sum :: "nat \<Rightarrow> nat list \<Rightarrow> nat" where
  "weighted_sum i [] = 0"
| "weighted_sum i (d # ds) = d * (10 - i) + weighted_sum (Suc i) ds"

definition validateNGNIN :: "string \<Rightarrow> bool" where
  "validateNGNIN nin =
     (if \<not> pattern_NG nin then False
      else
        let stateCode = parseInt_digits 0 (take 3 nin);
            checkDigit = parseInt_digits 0 (take 1 (drop 10 nin))
        in if stateCode < 1 \<or> stateCode > 38 then False
           else
             let digits = map digit_val nin;
                 sum = weighted_sum 0 (take 10 digits);
                 computedCheck = (sum mod 11) mod 10
             in computedCheck = checkDigit)"

subsection \<open>Results, the cache and the rate limiter\<close>

record NINValidationResult =
  v_isValid :: bool
  v_error :: "string option"
  v_countryCode :: "string option"
  v_cached :: bool

record NINAddressResult =
  a_success :: bool
  a_address :: "string option"
  a_error :: "string option"
  a_keypair :: "Keypair option"
  a_countryCode :: "string option"
  a_cached :: bool

record NINVerificationResult =
  r_isValid :: bool
  r_error :: "string option"
  r_countryCode :: "string option"
  r_cached :: bool

record NINHashResult =
  h_success :: bool
  h_hash :: "string option"
  h_error :: "string option"
  h_countryCode :: "string option"
  h_cached :: bool

text \<open>
  \<open>ninCache\<close> is a \<open>node-cache\<close> instance with a standard time to live of 300 seconds.
  An entry is stored with the time at which it expires (0: never); a read of an expired
  entry finds nothing. The keys of the four kinds of result start with four different
  prefixes, so the cache is four maps, each under the full key string.
  The rate limiter is the \<open>limiter\<close> library's: the outcome of the k-th call of
  \<open>removeTokens\<close> (the remaining tokens, or an exception) and the time that call takes to
  settle are parameters. \<open>hourly_limiter\<close> below is the limiter the module builds.
\<close>

type_synonym 'v cache = "string \<rightharpoonup> ('v \<times> int)"

definition stdTTL :: int where
  "stdTTL = 300"

definition cache_get :: "int \<Rightarrow> 'v cache \<Rightarrow> string \<Rightarrow> 'v option" where
  "cache_get t c k =
     (case c k of None \<Rightarrow> None
      | Some (v, expires) \<Rightarrow> if expires \<noteq> 0 \<and> expires < t then None else Some v)"

definition cache_set :: "int \<Rightarrow> 'v cache \<Rightarrow> string \<Rightarrow> 'v \<Rightarrow> int \<Rightarrow> 'v cache" where
  "cache_set t c k v ttl = c(k \<mapsto> (v, if ttl = 0 then 0 else t + ttl * 1000))"

record limiter =
  removeTokens_result :: "nat \<Rightarrow> js_error + int"
  removeTokens_elapsed :: "nat \<Rightarrow> int"

record nin_world =
  now :: int
  validationCache :: "NINValidationResult cache"
  addressCache :: "NINAddressResult cache"
  verifyCache :: "NINVerificationResult cache"
  hashCache :: "NINHashResult cache"
  limiter_calls :: nat

subsection \<open>The operations\<close>

definition validateNIN ::
  "nin_world \<Rightarrow> string \<Rightarrow> string \<Rightarrow> (js_error + NINValidationResult) \<times> nin_world" where
  "validateNIN w nin countryCode =
     (if nin = [] then
        (Inr \<lparr> v_isValid = False, v_error = Some ''NIN is required'',
               v_countryCode = Some countryCode, v_cached = False \<rparr>, w)
      else
        let cacheKey = ''nin_validation_'' @ countryCode @ ''_'' @ nin in
        case cache_get (now w) (validationCache w) cacheKey of
          Some cached \<Rightarrow> (Inr (cached \<lparr> v_cached := True \<rparr>), w)
        | None \<Rightarrow>
            let normalizedNIN = toUpperCase (trim nin) in
            (case pattern_test countryCode normalizedNIN of
               Inl e \<Rightarrow> (Inl e, w)
             | Inr matches \<Rightarrow>
                 if \<not> matches then
                   let result = \<lparr> v_isValid = False,
                                  v_error = Some (''Invalid NIN format for country '' @ countryCode),
                                  v_countryCode = Some countryCode, v_cached = False \<rparr>
                   in (Inr result,
                       w \<lparr> validationCache := cache_set (now w) (validationCache w) cacheKey result 60 \<rparr>)
                 else if countryCode = ''NG'' \<and> \<not> validateNGNIN normalizedNIN then
                   let result = \<lparr> v_isValid = False, v_error = Some ''Invalid Nigerian NIN format'',
                                  v_countryCode = Some countryCode, v_cached = False \<rparr>
                   in (Inr result,
                       w \<lparr> validationCache := cache_set (now w) (validationCache w) cacheKey result 60 \<rparr>)
                 else
                   let result = \<lparr> v_isValid = True, v_error = None,
                                  v_countryCode = Some countryCode, v_cached = False \<rparr>
                   in (Inr result,
                       w \<lparr> validationCache :=
                             cache_set (now w) (validationCache w) cacheKey result stdTTL \<rparr>)))"

text \<open>
  \<open>checkRateLimit\<close> does not use its \<open>ip\<close> argument: one limiter serves every caller.
  The call is allowed when \<open>removeTokens\<close> settles with a count that is not negative; an
  exception is a denial.
\<close>

definition checkRateLimit :: "limiter \<Rightarrow> nin_world \<Rightarrow> string \<Rightarrow> bool \<times> nin_world" where
  "checkRateLimit lim w ip =
     (let k = limiter_calls w;
          w' = w \<lparr> now := now w + removeTokens_elapsed lim k, limiter_calls := Suc k \<rparr>
      in case removeTokens_result lim k of
           Inr remaining \<Rightarrow> (remaining \<ge> 0, w')
         | Inl e \<Rightarrow> (False, w'))"

definition generateAddress ::
  "crypto_lib \<Rightarrow> process_env \<Rightarrow> limiter \<Rightarrow> nin_world \<Rightarrow> string \<Rightarrow> string \<Rightarrow> string
     \<Rightarrow> NINAddressResult \<times> nin_world" where
  "generateAddress L penv lim w nin ip countryCode =
     (let failure = (\<lambda>e. \<lparr> a_success = False, a_address = None, a_error = Some (message e),
                            a_keypair = None, a_countryCode = Some countryCode, a_cached = False \<rparr>)
      in
      case checkRateLimit lim w ip of
        (False, w1) \<Rightarrow>
          (\<lparr> a_success = False, a_address = None,
             a_error = Some ''Rate limit exceeded. Please try again later.'',
             a_keypair = None, a_countryCode = None, a_cached = False \<rparr>, w1)
      | (True, w1) \<Rightarrow>
          let cacheKey = ''nin_address_'' @ countryCode @ ''_'' @ nin in
          (case cache_get (now w1) (addressCache w1) cacheKey of
             Some cached \<Rightarrow> (cached \<lparr> a_cached := True \<rparr>, w1)
           | None \<Rightarrow>
               (case validateNIN w1 nin countryCode of
                  (Inl e, w2) \<Rightarrow> (failure e, w2)
                | (Inr validation, w2) \<Rightarrow>
                    if \<not> v_isValid validation then
                      (\<lparr> a_success = False, a_address = None,
                         a_error = Some (case v_error validation of
                                           None \<Rightarrow> ''Invalid NIN format''
                                         | Some m \<Rightarrow> if m = [] then ''Invalid NIN format'' else m),
                         a_keypair = None, a_countryCode = v_countryCode validation,
                         a_cached = False \<rparr>, w2)
                    else
                      (case (case generateSeedFromNIN L penv nin of
                               Inl e \<Rightarrow> Inl e
                             | Inr seed \<Rightarrow> Keypair_fromSeed L (take 32 seed)) of
                         Inl e \<Rightarrow> (failure e, w2)
                       | Inr keypair \<Rightarrow>
                           let result = \<lparr> a_success = True,
                                          a_address = Some (toBase58 L (publicKey keypair)),
                                          a_error = None, a_keypair = Some keypair,
                                          a_countryCode = v_countryCode validation,
                                          a_cached = False \<rparr>
                           in (result,
                               w2 \<lparr> addressCache :=
                                      cache_set (now w2) (addressCache w2) cacheKey result stdTTL \<rparr>)))))"

definition verifyAddress ::
  "crypto_lib \<Rightarrow> process_env \<Rightarrow> limiter \<Rightarrow> nin_world \<Rightarrow> string \<Rightarrow> string \<Rightarrow> string \<Rightarrow> string
     \<Rightarrow> NINVerificationResult \<times> nin_world" where
  "verifyAddress L penv lim w nin address ip countryCode =
     (let failure = (\<lambda>e. \<lparr> r_isValid = False, r_error = Some (message e),
                            r_countryCode = Some countryCode, r_cached = False \<rparr>)
      in
      case checkRateLimit lim w ip of
        (False, w1) \<Rightarrow>
          (\<lparr> r_isValid = False, r_error = Some ''Rate limit exceeded. Please try again later.'',
             r_countryCode = Some countryCode, r_cached = False \<rparr>, w1)
      | (True, w1) \<Rightarrow>
          let cacheKey = ''nin_verify_'' @ countryCode @ ''_'' @ nin @ ''_'' @ address in
          (case cache_get (now w1) (verifyCache w1) cacheKey of
             Some cached \<Rightarrow> (cached \<lparr> r_cached := True \<rparr>, w1)
           | None \<Rightarrow>
               (case validateNIN w1 nin countryCode of
                  (Inl e, w2) \<Rightarrow> (failure e, w2)
                | (Inr validation, w2) \<Rightarrow>
                    if \<not> v_isValid validation then
                      (\<lparr> r_isValid = False, r_error = v_error validation,
                         r_countryCode = v_countryCode validation, r_cached = False \<rparr>, w2)
                    else
                      (case verifyAddressForNIN L penv nin address of
                         Inl e \<Rightarrow> (failure e, w2)
                       | Inr matches \<Rightarrow>
                           let result = \<lparr> r_isValid = matches, r_error = None,
                                          r_countryCode = v_countryCode validation,
                                          r_cached = False \<rparr>
                           in (result,
                               w2 \<lparr> verifyCache :=
                                      cache_set (now w2) (verifyCache w2) cacheKey result
                                        (if matches then 3600 else 300) \<rparr>)))))"

text \<open>
  \<open>NINService.hashNIN\<close> passes \<open>saltRounds\<close> as a second argument to the \<open>hashNIN\<close> of
  \<open>utils/crypto.ts\<close>, which declares one parameter: JavaScript drops the surplus argument.
\<close>

definition hashNIN_call2 :: "crypto_lib \<Rightarrow> process_env \<Rightarrow> string \<Rightarrow> int \<Rightarrow> js_error + string" where
  "hashNIN_call2 L penv nin saltRounds = hashNIN L penv nin"

definition NINService_hashNIN ::
  "crypto_lib \<Rightarrow> process_env \<Rightarrow> nin_world \<Rightarrow> string \<Rightarrow> int \<Rightarrow> string
     \<Rightarrow> NINHashResult \<times> nin_world" where
  "NINService_hashNIN L penv w nin saltRounds countryCode =
     (let failure = (\<lambda>e. \<lparr> h_success = False, h_hash = None, h_error = Some (message e),
                            h_countryCode = Some countryCode, h_cached = False \<rparr>)
      in
      case validateNIN w nin countryCode of
        (Inl e, w1) \<Rightarrow> (failure e, w1)
      | (Inr validation, w1) \<Rightarrow>
          if \<not> v_isValid validation then
            (\<lparr> h_success = False, h_hash = None, h_error = v_error validation,
               h_countryCode = v_countryCode validation, h_cached = False \<rparr>, w1)
          else
            let cacheKey = ''nin_hash_'' @ countryCode @ ''_'' @ nin in
            (case cache_get (now w1) (hashCache w1) cacheKey of
               Some cached \<Rightarrow> (cached \<lparr> h_cached := True \<rparr>, w1)
             | None \<Rightarrow>
                 (case hashNIN_call2 L penv nin saltRounds of
                    Inl e \<Rightarrow> (failure e, w1)
                  | Inr hashedNIN \<Rightarrow>
                      let result = \<lparr> h_success = True, h_hash = Some hashedNIN, h_error = None,
                                     h_countryCode = v_countryCode validation, h_cached = False \<rparr>
                      in (result,
                          w1 \<lparr> hashCache :=
                                 cache_set (now w1) (hashCache w1) cacheKey result stdTTL \<rparr>))))"

definition empty_nin_world :: nin_world where
  "empty_nin_world = \<lparr> now = 1700000000000, validationCache = Map.empty, addressCache = Map.empty,
                        verifyCache = Map.empty, hashCache = Map.empty, limiter_calls = 0 \<rparr>"

text \<open>
  The limiter of the module is \<open>new RateLimiter({tokensPerInterval: 100, interval: 'hour'})\<close>,
  built without \<open>fireImmediately\<close>. By the package's documentation such a limiter never
  answers with a negative count: when the tokens of the interval are spent,
  \<open>removeTokens\<close> holds the caller until the next interval begins and then settles with the
  tokens that are left. \<open>hourly_limiter\<close> is that limiter under a burst of calls, each made
  as soon as the one before has settled: the calls 0 to 99 settle at once with 99 down to 0
  tokens left, the call 100 finds the hour's tokens spent and settles after the hour with
  99 left, the calls 101 to 199 settle at once again. (Later calls repeat the pattern; the
  properties below look at the calls up to 100, and use of the later ones only that no
  answer is negative.) \<open>failing_limiter\<close> is a limiter whose every call throws.
\<close>

definition hourly_limiter :: limiter where
  "hourly_limiter = \<lparr> removeTokens_result = (\<lambda>k. Inr (99 - int (k mod 100))),
                       removeTokens_elapsed = (\<lambda>k. if 0 < k \<and> k mod 100 = 0 then 3600000 else 0) \<rparr>"

definition failing_limiter :: limiter where
  "failing_limiter = \<lparr> removeTokens_result = (\<lambda>k. Inl (Error ''limiter unavailable'')),
                        removeTokens_elapsed = (\<lambda>k. 3) \<rparr>"

section \<open>utils/async.ts\<close>

text \<open>
  \<open>withRetry\<close> runs an opaque asynchronous operation. The outcome of the operation's k-th
  invocation (k = 0, 1, ...) is a parameter; the log counts the invocations and records
  the argument of every \<open>sleep\<close>, in order. The loop variable and the bound are numbers,
  not naturals: a bound below 1 runs no iteration.
\<close>

record retry_log =
  invocations :: nat
  slept :: "int list"

definition empty_log :: retry_log where
  "empty_log = \<lparr> invocations = 0, slept = [] \<rparr>"

function withRetry_loop ::
  "(nat \<Rightarrow> js_error + 'a) \<Rightarrow> int \<Rightarrow> int \<Rightarrow> int \<Rightarrow> js_error option \<Rightarrow> retry_log
     \<Rightarrow> (js_error + 'a) \<times> retry_log" where
  "withRetry_loop operation maxRetries initialDelayMs attempt lastError lg =
     (if attempt \<le> maxRetries then
        (case operation (invocations lg) of
           Inr v \<Rightarrow> (Inr v, lg \<lparr> invocations := Suc (invocations lg) \<rparr>)
         | Inl e \<Rightarrow>
             let lg1 = lg \<lparr> invocations := Suc (invocations lg) \<rparr>;
                 lg2 = (if attempt < maxRetries
                        then lg1 \<lparr> slept := slept lg1 @ [initialDelayMs * 2 ^ nat (attempt - 1)] \<rparr>
                        else lg1)
             in withRetry_loop operation maxRetries initialDelayMs (attempt + 1) (Some e) lg2)
      else
        (Inl (case lastError of
                Some e \<Rightarrow> e
              | None \<Rightarrow> Error ''Operation failed after maximum retries''), lg))"
  by pat_completeness auto
termination
  by (relation "measure (\<lambda>(operation, maxRetries, initialDelayMs, attempt, lastError, lg).
        nat (maxRetries + 1 - attempt))") auto

declare withRetry_loop.simps [simp del]

definition withRetry ::
  "(nat \<Rightarrow> js_error + 'a) \<Rightarrow> int \<Rightarrow> int \<Rightarrow> (js_error + 'a) \<times> retry_log" where
  "withRetry operation maxRetries initialDelayMs =
     withRetry_loop operation maxRetries initialDelayMs 1 None empty_log"

section \<open>services/BlockchainService.ts\<close>

subsection \<open>The ledger, the clock and the event log\<close>

text \<open>
  The RPC connection, transaction signing and \<open>Math.random\<close> are outside the service:
  the outcome of the k-th call of each of them and the time an RPC call takes are
  parameters (\<open>rpc\<close>). The world counts the calls made so far, keeps the clock in
  milliseconds, and logs the emitted events and the arguments of \<open>sleep\<close>.
  Event listeners are taken not to throw.
\<close>

datatype PublicKey = PublicKey bytes

record SignatureStatus =
  err :: "string option"
  confirmationStatus :: "string option"

record AccountInfo =
  owner :: PublicKey
  acc_data :: string

datatype rpc_method =
  GetLatestBlockhash | SendRawTransaction | GetSignatureStatuses | GetSlot | GetAccountInfo

record rpc =
  getLatestBlockhash_r :: "nat \<Rightarrow> js_error + (string \<times> int)"
  sign_serialize_r :: "nat \<Rightarrow> js_error + unit"
  sendRawTransaction_r :: "nat \<Rightarrow> js_error + string"
  getSignatureStatuses_r :: "nat \<Rightarrow> js_error + SignatureStatus option"
  getSlot_r :: "nat \<Rightarrow> js_error + int"
  getAccountInfo_r :: "nat \<Rightarrow> PublicKey \<Rightarrow> js_error + AccountInfo option"
  Math_random_r :: "nat \<Rightarrow> nat"
  elapsed :: "rpc_method \<Rightarrow> nat \<Rightarrow> nat"

datatype BlockchainEvent =
    TRANSACTION_CREATED
  | TRANSACTION_SENT
  | TRANSACTION_CONFIRMED
  | TRANSACTION_FAILED
  | ACCOUNT_CHANGED
  | SAS_AUTHENTICATION_STARTED
  | SAS_AUTHENTICATION_COMPLETED
  | SAS_AUTHENTICATION_FAILED
  | SAS_SESSION_EXPIRED

text \<open>An emitted event: its kind, the error it carries (if any) and the signature.\<close>

type_synonym emission = "BlockchainEvent \<times> js_error option \<times> string"

record world =
  clock :: int
  calls_getLatestBlockhash :: nat
  calls_sign :: nat
  calls_sendRawTransaction :: nat
  calls_getSignatureStatuses :: nat
  calls_getSlot :: nat
  calls_getAccountInfo :: nat
  calls_random :: nat
  emitted :: "emission list"
  sleeps :: "int list"

record service =
  programId :: PublicKey
  wallet_address :: string
  confirmationTimeout :: int
  maxRetries :: int
  retryDelay :: int

definition emit :: "emission \<Rightarrow> world \<Rightarrow> world" where
  "emit ev w = w \<lparr> emitted := emitted w @ [ev] \<rparr>"

definition sleep :: "int \<Rightarrow> world \<Rightarrow> world" where
  "sleep ms w = w \<lparr> clock := clock w + (if ms < 0 then 0 else ms), sleeps := sleeps w @ [ms] \<rparr>"

definition getLatestBlockhash :: "rpc \<Rightarrow> world \<Rightarrow> (js_error + (string \<times> int)) \<times> world" where
  "getLatestBlockhash env w =
     (let k = calls_getLatestBlockhash w in
      (getLatestBlockhash_r env k,
       w \<lparr> clock := clock w + int (elapsed env GetLatestBlockhash k),
           calls_getLatestBlockhash := Suc k \<rparr>))"

definition sign_serialize :: "rpc \<Rightarrow> world \<Rightarrow> (js_error + unit) \<times> world" where
  "sign_serialize env w =
     (let k = calls_sign w in (sign_serialize_r env k, w \<lparr> calls_sign := Suc k \<rparr>))"

definition sendRawTransaction :: "rpc \<Rightarrow> world \<Rightarrow> (js_error + string) \<times> world" where
  "sendRawTransaction env w =
     (let k = calls_sendRawTransaction w in
      (sendRawTransaction_r env k,
       w \<lparr> clock := clock w + int (elapsed env SendRawTransaction k),
           calls_sendRawTransaction := Suc k \<rparr>))"

definition getSignatureStatuses :: "rpc \<Rightarrow> world \<Rightarrow> (js_error + SignatureStatus option) \<times> world" where
  "getSignatureStatuses env w =
     (let k = calls_getSignatureStatuses w in
      (getSignatureStatuses_r env k,
       w \<lparr> clock := clock w + int (elapsed env GetSignatureStatuses k),
           calls_getSignatureStatuses := Suc k \<rparr>))"

definition getSlot :: "rpc \<Rightarrow> world \<Rightarrow> (js_error + int) \<times> world" where
  "getSlot env w =
     (let k = calls_getSlot w in
      (getSlot_r env k,
       w \<lparr> clock := clock w + int (elapsed env GetSlot k), calls_getSlot := Suc k \<rparr>))"

definition getAccountInfo :: "rpc \<Rightarrow> PublicKey \<Rightarrow> world \<Rightarrow> (js_error + AccountInfo option) \<times> world" where
  "getAccountInfo env pubKey w =
     (let k = calls_getAccountInfo w in
      (getAccountInfo_r env k pubKey,
       w \<lparr> clock := clock w + int (elapsed env GetAccountInfo k), calls_getAccountInfo := Suc k \<rparr>))"

text \<open>\<open>Math.floor(Math.random() * 500)\<close>: some integer from 0 to 499.\<close>

definition random_jitter :: "rpc \<Rightarrow> world \<Rightarrow> int \<times> world" where
  "random_jitter env w =
     (let k = calls_random w in
      (int (Math_random_r env k mod 500), w \<lparr> calls_random := Suc k \<rparr>))"

subsection \<open>Transaction flow\<close>

definition is_TransactionFailedError :: "js_error \<Rightarrow> bool" where
  "is_TransactionFailedError e = (case e of TransactionFailedError m s \<Rightarrow> True | _ \<Rightarrow> False)"

definition is_TransactionTimeoutError :: "js_error \<Rightarrow> bool" where
  "is_TransactionTimeoutError e = (case e of TransactionTimeoutError m s \<Rightarrow> True | _ \<Rightarrow> False)"

text \<open>
  One turn of the polling loop of \<open>waitForConfirmation\<close>, up to the \<open>sleep\<close>. The first
  \<open>try\<close> block rethrows a \<open>TransactionFailedError\<close> and swallows every other error. The
  second \<open>try\<close> block throws its \<open>TransactionTimeoutError\<close> inside the \<open>try\<close>, and its
  \<open>catch\<close> swallows every error: after it the loop always goes on.
\<close>

datatype poll_outcome = Return | Throw js_error | Continue

definition check_status :: "rpc \<Rightarrow> string \<Rightarrow> world \<Rightarrow> poll_outcome \<times> world" where
  "check_status env signature w =
     (case getSignatureStatuses env w of
        (Inl e, w1) \<Rightarrow> (if is_TransactionFailedError e then Throw e else Continue, w1)
      | (Inr None, w1) \<Rightarrow> (Continue, w1)
      | (Inr (Some info), w1) \<Rightarrow>
          (case err info of
             Some j \<Rightarrow> (Throw (TransactionFailedError (''Transaction failed: '' @ j) signature), w1)
           | None \<Rightarrow>
               if confirmationStatus info = Some ''confirmed''
                  \<or> confirmationStatus info = Some ''finalized''
               then (Return, w1) else (Continue, w1)))"

definition check_slot :: "rpc \<Rightarrow> string \<Rightarrow> int \<Rightarrow> world \<Rightarrow> poll_outcome \<times> world" where
  "check_slot env signature lastValidBlockHeight w =
     (case getSlot env w of
        (Inl e, w1) \<Rightarrow> (Continue, w1)
      | (Inr slot, w1) \<Rightarrow>
          (case (if slot > lastValidBlockHeight
                 then Inl (TransactionTimeoutError ''Blockhash expired before confirmation'' signature)
                 else Inr ()) of
             Inl thrown \<Rightarrow> (Continue, w1)
           | Inr u \<Rightarrow> (Continue, w1)))"

definition poll_once :: "rpc \<Rightarrow> string \<Rightarrow> int \<Rightarrow> world \<Rightarrow> poll_outcome \<times> world" where
  "poll_once env signature lastValidBlockHeight w =
     (case check_status env signature w of
        (Continue, w1) \<Rightarrow> check_slot env signature lastValidBlockHeight w1
      | (outcome, w1) \<Rightarrow> (outcome, w1))"

lemma getSignatureStatuses_clock: "clock w \<le> clock (snd (getSignatureStatuses env w))"
  by (simp add: getSignatureStatuses_def Let_def)

lemma getSlot_clock: "clock w \<le> clock (snd (getSlot env w))"
  by (simp add: getSlot_def Let_def)

lemma check_status_clock: "clock w \<le> clock (snd (check_status env signature w))"
  using getSignatureStatuses_clock [of w env]
  by (auto simp: check_status_def split: prod.splits sum.splits option.splits)

lemma check_slot_clock: "clock w \<le> clock (snd (check_slot env signature h w))"
  using getSlot_clock [of w env]
  by (auto simp: check_slot_def split: prod.splits sum.splits)

lemma poll_once_clock: "clock w \<le> clock (snd (poll_once env signature h w))"
proof -
  have "clock w \<le> clock (snd (check_status env signature w))"
    by (rule check_status_clock)
  moreover have "clock (snd (check_status env signature w))
      \<le> clock (snd (check_slot env signature h (snd (check_status env signature w))))"
    by (rule check_slot_clock)
  ultimately show ?thesis
    by (auto simp: poll_once_def split: prod.splits poll_outcome.splits)
qed

function waitForConfirmation_loop ::
  "rpc \<Rightarrow> service \<Rightarrow> string \<Rightarrow> int \<Rightarrow> int \<Rightarrow> world \<Rightarrow> (js_error + unit) \<times> world" where
  "waitForConfirmation_loop env svc signature lastValidBlockHeight start w =
     (if clock w - start < confirmationTimeout svc then
        (case poll_once env signature lastValidBlockHeight w of
           (Return, w1) \<Rightarrow> (Inr (), w1)
         | (Throw e, w1) \<Rightarrow> (Inl e, w1)
         | (Continue, w1) \<Rightarrow>
             waitForConfirmation_loop env svc signature lastValidBlockHeight start (sleep 1000 w1))
      else
        (Inl (TransactionTimeoutError
               (''Transaction not confirmed within '' @ string_of_int (confirmationTimeout svc) @ ''ms'')
               signature), w))"
  by pat_completeness auto
termination
proof (relation "measure (\<lambda>(env, svc, signature, h, start, w).
          nat (confirmationTimeout svc - (clock w - start)))", goal_cases)
  case 1
  show ?case by simp
next
  case (2 env svc signature h start w x1 x2)
  have "clock w \<le> clock (snd (poll_once env signature h w))"
    by (rule poll_once_clock)
  moreover from 2 have "snd (poll_once env signature h w) = x2"
    by (metis snd_conv)
  ultimately have "clock w \<le> clock x2"
    by simp
  with 2 show ?case
    by (simp add: sleep_def)
qed

declare waitForConfirmation_loop.simps [simp del]

definition waitForConfirmation ::
  "rpc \<Rightarrow> service \<Rightarrow> string \<Rightarrow> int \<Rightarrow> world \<Rightarrow> (js_error + unit) \<times> world" where
  "waitForConfirmation env svc signature lastValidBlockHeight w =
     waitForConfirmation_loop env svc signature lastValidBlockHeight (clock w) w"

text \<open>
  The body of the \<open>try\<close> block of one attempt of \<open>sendTransactionWithRetry\<close>: a fresh
  blockhash, signing and serialisation, the send, the \<open>TRANSACTION_SENT\<close> event, the wait,
  and the terminal event.
\<close>

definition attempt_once ::
  "rpc \<Rightarrow> service \<Rightarrow> world \<Rightarrow> (js_error + (string \<times> string \<times> int)) \<times> world" where
  "attempt_once env svc w =
     (case getLatestBlockhash env w of
        (Inl e, w1) \<Rightarrow> (Inl e, w1)
      | (Inr (blockhash, lastValidBlockHeight), w1) \<Rightarrow>
          (case sign_serialize env w1 of
             (Inl e, w2) \<Rightarrow> (Inl e, w2)
           | (Inr raw, w2) \<Rightarrow>
               (case sendRawTransaction env w2 of
                  (Inl e, w3) \<Rightarrow> (Inl e, w3)
                | (Inr signature, w3) \<Rightarrow>
                    let w4 = emit (TRANSACTION_SENT, None, signature) w3 in
                    (case waitForConfirmation env svc signature lastValidBlockHeight w4 of
                       (Inr u, w5) \<Rightarrow>
                         (Inr (signature, blockhash, lastValidBlockHeight),
                          emit (TRANSACTION_CONFIRMED, None, signature) w5)
                     | (Inl e, w5) \<Rightarrow>
                         (Inl e, emit (TRANSACTION_FAILED, Some e, signature) w5)))))"

definition is_fatal :: "js_error \<Rightarrow> bool" where
  "is_fatal e = (is_TransactionFailedError e \<or> is_TransactionTimeoutError e)"

function sendTransactionWithRetry_loop ::
  "rpc \<Rightarrow> service \<Rightarrow> int \<Rightarrow> int \<Rightarrow> world \<Rightarrow> (js_error + (string \<times> string \<times> int)) \<times> world" where
  "sendTransactionWithRetry_loop env svc retries attempt w =
     (if attempt \<le> retries then
        (case attempt_once env svc w of
           (Inr r, w1) \<Rightarrow> (Inr r, w1)
         | (Inl e, w1) \<Rightarrow>
             if is_fatal e then (Inl e, w1)
             else if attempt < retries then
               (let backoff = retryDelay svc * 2 ^ nat attempt;
                    (jitter, w2) = random_jitter env w1
                in sendTransactionWithRetry_loop env svc retries (attempt + 1)
                     (sleep (backoff + jitter) w2))
             else
               (Inl (BlockchainError (''Failed to send transaction after retries: '' @ message e)), w1))
      else (Inl (BlockchainError ''Failed to send transaction (unknown reason)''), w))"
  by pat_completeness auto
termination
  by (relation "measure (\<lambda>(env, svc, retries, attempt, w). nat (retries + 1 - attempt))") auto

declare sendTransactionWithRetry_loop.simps [simp del]

text \<open>\<open>options.retries ?? this.maxRetries\<close>, then the loop from attempt 0.\<close>

definition sendTransactionWithRetry ::
  "rpc \<Rightarrow> service \<Rightarrow> int option \<Rightarrow> world \<Rightarrow> (js_error + (string \<times> string \<times> int)) \<times> world" where
  "sendTransactionWithRetry env svc opt_retries w =
     sendTransactionWithRetry_loop env svc
       (case opt_retries of None \<Rightarrow> maxRetries svc | Some r \<Rightarrow> r) 0 w"

subsection \<open>Attestation verification\<close>

text \<open>
  The account data is held as its UTF-8 text. \<open>JSON.parse\<close> and the \<open>PublicKey\<close>
  constructor are library code and parameters of the model; both may throw. A parsed
  JSON value is a tree; numbers are integers in the model.
\<close>

datatype json =
    JNull
  | JBool bool
  | JNumber int
  | JString string
  | JArray "json list"
  | JObject "(string \<times> json) list"

record runtime =
  JSON_parse :: "string \<Rightarrow> js_error + json"
  new_PublicKey :: "string \<Rightarrow> js_error + PublicKey"

text \<open>
  Reading a property: of an object, the last entry under the key; of \<open>null\<close>, a
  \<open>TypeError\<close>; of any other value, \<open>undefined\<close> (no value of the other kinds has a
  property named by one of the keys read here).
\<close>

definition get_field :: "json \<Rightarrow> string \<Rightarrow> js_error + json option" where
  "get_field j k =
     (case j of
        JNull \<Rightarrow> Inl (Error ''Cannot read properties of null'')
      | JObject kvs \<Rightarrow> Inr (map_of (rev kvs) k)
      | _ \<Rightarrow> Inr None)"

definition truthy :: "json option \<Rightarrow> bool" where
  "truthy v =
     (case v of
        None \<Rightarrow> False
      | Some JNull \<Rightarrow> False
      | Some (JBool b) \<Rightarrow> b
      | Some (JNumber n) \<Rightarrow> n \<noteq> 0
      | Some (JString s) \<Rightarrow> s \<noteq> []
      | Some _ \<Rightarrow> True)"

text \<open>\<open>a ?? b\<close>: \<open>b\<close> when \<open>a\<close> is \<open>undefined\<close> or \<open>null\<close>.\<close>

definition nullish_or :: "json option \<Rightarrow> json \<Rightarrow> json" where
  "nullish_or v d = (case v of None \<Rightarrow> d | Some JNull \<Rightarrow> d | Some x \<Rightarrow> x)"

text \<open>
  Setting a property keeps the place of a key that is already there; \<open>{...base, ...obj}\<close>
  sets the entries of \<open>obj\<close> in order.
\<close>

fun obj_set :: "string \<Rightarrow> json \<Rightarrow> (string \<times> json) list \<Rightarrow> (string \<times> json) list" where
  "obj_set k v [] = [(k, v)]"
| "obj_set k v ((k', v') # rest) = (if k' = k then (k, v) # rest else (k', v') # obj_set k v rest)"

definition spread :: "(string \<times> json) list \<Rightarrow> (string \<times> json) list \<Rightarrow> (string \<times> json) list" where
  "spread base kvs = foldl (\<lambda>acc (k, v). obj_set k v acc) base kvs"

text \<open>
  \<open>parseAttestationData\<close> catches every error of its body and returns \<open>null\<close> then. Its
  result spreads the parsed object over the two defaults, so an entry of the parsed
  object wins over a default.
\<close>

definition parseAttestationData_body ::
  "runtime \<Rightarrow> service \<Rightarrow> int \<Rightarrow> string \<Rightarrow> js_error + (string \<times> json) list option" where
  "parseAttestationData_body rt svc t raw =
     (let s = trim raw in
      if s = [] then Inr None
      else
        case JSON_parse rt s of
          Inl e \<Rightarrow> Inl e
        | Inr parsed \<Rightarrow>
            (case get_field parsed ''credentialId'' of
               Inl e \<Rightarrow> Inl e
             | Inr credentialId \<Rightarrow>
                 if \<not> truthy credentialId then Inr None
                 else
                   (case get_field parsed ''studentId'' of
                      Inl e \<Rightarrow> Inl e
                    | Inr studentId \<Rightarrow>
                        if \<not> truthy studentId then Inr None
                        else
                          (case get_field parsed ''universityId'' of
                             Inl e \<Rightarrow> Inl e
                           | Inr universityId \<Rightarrow>
                               if \<not> truthy universityId then Inr None
                               else
                                 (case (get_field parsed ''timestamp'', get_field parsed ''issuer'') of
                                    (Inr ts, Inr issuer) \<Rightarrow>
                                      Inr (Some (spread
                                             [(''timestamp'', nullish_or ts (JNumber t)),
                                              (''issuer'', nullish_or issuer
                                                             (JString (wallet_address svc)))]
                                             (case parsed of JObject kvs \<Rightarrow> kvs | _ \<Rightarrow> [])))
                                  | (Inl e, _) \<Rightarrow> Inl e
                                  | (_, Inl e) \<Rightarrow> Inl e)))))"

definition parseAttestationData ::
  "runtime \<Rightarrow> service \<Rightarrow> int \<Rightarrow> string \<Rightarrow> (string \<times> json) list option" where
  "parseAttestationData rt svc t raw =
     (case parseAttestationData_body rt svc t raw of Inl e \<Rightarrow> None | Inr r \<Rightarrow> r)"

definition is_JString :: "json option \<Rightarrow> bool" where
  "is_JString v = (case v of Some (JString s) \<Rightarrow> True | _ \<Rightarrow> False)"

definition validateAttestationStructure :: "int \<Rightarrow> (string \<times> json) list option \<Rightarrow> bool" where
  "validateAttestationStructure t d =
     (case d of
        None \<Rightarrow> False
      | Some kvs \<Rightarrow>
          let field = map_of (rev kvs) in
          if \<not> is_JString (field ''credentialId'') then False
          else if \<not> is_JString (field ''studentId'') then False
          else if \<not> is_JString (field ''universityId'') then False
          else if field ''attestationType'' \<noteq> Some (JString ''UNIVERSITY_ISSUED'')
                  \<and> field ''attestationType'' \<noteq> Some (JString ''GOVERNMENT_ACCREDITED'') then False
          else if truthy (field ''timestamp'')
                  \<and> (case field ''timestamp'' of Some (JNumber n) \<Rightarrow> n > t | _ \<Rightarrow> True) then False
          else True)"

record VerificationResult =
  isValid :: bool
  data :: "(string \<times> json) list option"
  error :: "string option"

definition invalid :: "string \<Rightarrow> VerificationResult" where
  "invalid reason = \<lparr> isValid = False, data = None, error = Some reason \<rparr>"

text \<open>
  The body of the outer \<open>try\<close> block of \<open>verifyAttestation\<close>; the only statement of it that
  can throw to the outer \<open>catch\<close> is the account lookup.
\<close>

definition verifyAttestation_body ::
  "rpc \<Rightarrow> runtime \<Rightarrow> service \<Rightarrow> string \<Rightarrow> world \<Rightarrow> (js_error + VerificationResult) \<times> world" where
  "verifyAttestation_body env rt svc attestationAddress w =
     (if attestationAddress = [] then (Inr (invalid ''Invalid attestation address''), w)
      else
        case new_PublicKey rt attestationAddress of
          Inl e \<Rightarrow> (Inr (invalid ''Invalid attestation address format''), w)
        | Inr pubKey \<Rightarrow>
            (case getAccountInfo env pubKey w of
               (Inl e, w1) \<Rightarrow> (Inl e, w1)
             | (Inr None, w1) \<Rightarrow> (Inr (invalid ''Attestation account not found''), w1)
             | (Inr (Some accountInfo), w1) \<Rightarrow>
                 if owner accountInfo \<noteq> programId svc then
                   (Inr (invalid ''Attestation account is not owned by expected program''), w1)
                 else
                   let parsed = parseAttestationData rt svc (clock w1) (acc_data accountInfo);
                       ok = validateAttestationStructure (clock w1) parsed
                   in if ok then (Inr \<lparr> isValid = True, data = parsed, error = None \<rparr>, w1)
                      else (Inr (invalid ''Attestation data invalid or malformed''), w1)))"

definition verifyAttestation ::
  "rpc \<Rightarrow> runtime \<Rightarrow> service \<Rightarrow> string \<Rightarrow> world \<Rightarrow> (js_error + VerificationResult) \<times> world" where
  "verifyAttestation env rt svc attestationAddress w =
     (case verifyAttestation_body env rt svc attestationAddress w of
        (Inr res, w1) \<Rightarrow> (Inr res, w1)
      | (Inl e, w1) \<Rightarrow> (Inr (invalid (''Verification failed: '' @ message e)), w1))"

text \<open>
  \<open>batchVerifyAttestations\<close>. Each member of a chunk is verified inside its own
  \<open>try/catch\<close>; \<open>Promise.all\<close> rejects with the first rejection among its members, and
  that rejection would leave the batch call as an exception. The lookups of a chunk are
  issued in list order, and the model runs the chunk in that order.
\<close>

definition verify_member ::
  "rpc \<Rightarrow> runtime \<Rightarrow> service \<Rightarrow> string \<Rightarrow> world
     \<Rightarrow> (js_error + (string \<times> VerificationResult)) \<times> world" where
  "verify_member env rt svc addr w =
     (case verifyAttestation env rt svc addr w of
        (Inr res, w1) \<Rightarrow> (Inr (addr, res), w1)
      | (Inl e, w1) \<Rightarrow> (Inr (addr, invalid (message e)), w1))"

fun promise_all_members ::
  "rpc \<Rightarrow> runtime \<Rightarrow> service \<Rightarrow> string list \<Rightarrow> world
     \<Rightarrow> (js_error + (string \<times> VerificationResult) list) \<times> world" where
  "promise_all_members env rt svc [] w = (Inr [], w)"
| "promise_all_members env rt svc (addr # rest) w =
     (case verify_member env rt svc addr w of
        (m, w1) \<Rightarrow>
          (case promise_all_members env rt svc rest w1 of
             (ms, w2) \<Rightarrow>
               (case m of
                  Inl e \<Rightarrow> (Inl e, w2)
                | Inr x \<Rightarrow> (case ms of Inl e \<Rightarrow> (Inl e, w2) | Inr xs \<Rightarrow> (Inr (x # xs), w2)))))"

definition BATCH_SIZE :: nat where
  "BATCH_SIZE = 10"

text \<open>
  \<open>results\<close> is a plain object, created as \<open>{}\<close>: it has its own properties and a
  prototype. \<open>results[addr] = res\<close> creates or overwrites the own property \<open>addr\<close>, but for
  the key \<open>__proto__\<close>: that assignment runs the setter inherited from
  \<open>Object.prototype\<close>, which makes the object \<open>res\<close> the prototype of \<open>results\<close> and creates no
  own property. The prototype is \<open>None\<close> while it is still \<open>Object.prototype\<close>.
\<close>

record result_object =
  own_properties :: "string \<rightharpoonup> VerificationResult"
  prototype :: "VerificationResult option"

definition empty_object :: result_object where
  "empty_object = \<lparr> own_properties = Map.empty, prototype = None \<rparr>"

definition set_property :: "result_object \<Rightarrow> string \<Rightarrow> VerificationResult \<Rightarrow> result_object" where
  "set_property results addr res =
     (if addr = ''__proto__'' then results \<lparr> prototype := Some res \<rparr>
      else results \<lparr> own_properties := (own_properties results)(addr \<mapsto> res) \<rparr>)"

fun store_results :: "result_object \<Rightarrow> (string \<times> VerificationResult) list \<Rightarrow> result_object" where
  "store_results results [] = results"
| "store_results results ((addr, res) # rest) = store_results (set_property results addr res) rest"

function batch_loop ::
  "rpc \<Rightarrow> runtime \<Rightarrow> service \<Rightarrow> string list \<Rightarrow> nat \<Rightarrow> result_object \<Rightarrow> world
     \<Rightarrow> (js_error + result_object) \<times> world" where
  "batch_loop env rt svc attestationAddresses i results w =
     (if i < length attestationAddresses then
        (let batch = take BATCH_SIZE (drop i attestationAddresses) in
         case promise_all_members env rt svc batch w of
           (Inl e, w1) \<Rightarrow> (Inl e, w1)
         | (Inr batchResults, w1) \<Rightarrow>
             batch_loop env rt svc attestationAddresses (i + BATCH_SIZE)
               (store_results results batchResults)
               (if i + BATCH_SIZE < length attestationAddresses then sleep 500 w1 else w1))
      else (Inr results, w))"
  by pat_completeness auto
termination
  by (relation "measure (\<lambda>(env, rt, svc, attestationAddresses, i, results, w).
        length attestationAddresses - i)") (auto simp: BATCH_SIZE_def)

declare batch_loop.simps [simp del]

definition batchVerifyAttestations ::
  "rpc \<Rightarrow> runtime \<Rightarrow> service \<Rightarrow> string list \<Rightarrow> world
     \<Rightarrow> (js_error + result_object) \<times> world" where
  "batchVerifyAttestations env rt svc attestationAddresses w =
     batch_loop env rt svc attestationAddresses 0 empty_object w"

definition default_service :: service where
  "default_service = \<lparr> programId = PublicKey (replicate 32 7), wallet_address = ''wallet'',
                        confirmationTimeout = 30000,
                        maxRetries = 5, retryDelay = 1000 \<rparr>"

definition initial_world :: world where
  "initial_world = \<lparr> clock = 1700000000000, calls_getLatestBlockhash = 0, calls_sign = 0,
                      calls_sendRawTransaction = 0, calls_getSignatureStatuses = 0,
                      calls_getSlot = 0, calls_getAccountInfo = 0, calls_random = 0,
                      emitted = [], sleeps = [] \<rparr>"

text \<open>Ledgers to run the transaction flow on.\<close>

definition quiet_rpc :: rpc where
  "quiet_rpc = \<lparr> getLatestBlockhash_r = (\<lambda>k. Inr (''blockhash'', 1000 + int k)),
                  sign_serialize_r = (\<lambda>k. Inr ()),
                  sendRawTransaction_r = (\<lambda>k. Inr (''sig'')),
                  getSignatureStatuses_r = (\<lambda>k. Inr None),
                  getSlot_r = (\<lambda>k. Inr (2000 + int k)),
                  getAccountInfo_r = (\<lambda>k a. Inr None),
                  Math_random_r = (\<lambda>k. 7 * k + 123),
                  elapsed = (\<lambda>m k. 0) \<rparr>"

definition network_errors :: "string list" where
  "network_errors = [''ECONNRESET'', ''ETIMEDOUT'', ''EPIPE'', ''EAI_AGAIN'']"

definition send_down_rpc :: rpc where
  "send_down_rpc =
     quiet_rpc \<lparr> sendRawTransaction_r := (\<lambda>k. Inl (Error (network_errors ! (k mod 4)))) \<rparr>"

definition preflight_rejecting_rpc :: rpc where
  "preflight_rejecting_rpc =
     quiet_rpc \<lparr> sendRawTransaction_r :=
       (\<lambda>k. Inl (Error ''Transaction simulation failed: Error processing Instruction 0: custom program error: 0x1'')) \<rparr>"

definition rejecting_rpc :: rpc where
  "rejecting_rpc =
     quiet_rpc \<lparr> getSignatureStatuses_r :=
       (\<lambda>k. if k = 0 then Inr None
            else Inr (Some \<lparr> err = Some ''{InstructionError:[0,Custom]}'',
                             confirmationStatus = None \<rparr>)),
                 getSlot_r := (\<lambda>k. Inr 900) \<rparr>"


section \<open>Observations and sample inputs used by the properties\<close>

definition polling_frame :: "world \<Rightarrow> world \<Rightarrow> bool" where
  "polling_frame w w' =
     (emitted w' = emitted w
      \<and> calls_getLatestBlockhash w' = calls_getLatestBlockhash w
      \<and> calls_sign w' = calls_sign w
      \<and> calls_sendRawTransaction w' = calls_sendRawTransaction w
      \<and> calls_random w' = calls_random w
      \<and> calls_getAccountInfo w' = calls_getAccountInfo w)"

text \<open>The three ways one attempt can end.\<close>

definition attempt_shape ::
  "world \<Rightarrow> (js_error + (string \<times> string \<times> int)) \<Rightarrow> world \<Rightarrow> bool" where
  "attempt_shape w r w' =
     (case r of
        Inr (signature, blockhash, h) \<Rightarrow>
          emitted w' = emitted w @ [(TRANSACTION_SENT, None, signature),
                                    (TRANSACTION_CONFIRMED, None, signature)]
      | Inl e \<Rightarrow>
          emitted w' = emitted w
          \<or> (is_fatal e \<and> length (emitted w') = length (emitted w) + 2
              \<and> take (length (emitted w)) (emitted w') = emitted w
              \<and> fst (emitted w' ! length (emitted w)) = TRANSACTION_SENT
              \<and> fst (snd (emitted w' ! length (emitted w))) = None
              \<and> emitted w' ! Suc (length (emitted w))
                  = (TRANSACTION_FAILED, Some e, snd (snd (emitted w' ! length (emitted w))))))"

definition backoff_sleep :: "rpc \<Rightarrow> service \<Rightarrow> int \<Rightarrow> world \<Rightarrow> world" where
  "backoff_sleep env svc attempt w1 =
     sleep (retryDelay svc * 2 ^ nat attempt + fst (random_jitter env w1)) (snd (random_jitter env w1))"

definition lifecycle ::
  "emission list \<Rightarrow> (js_error + (string \<times> string \<times> int)) \<Rightarrow> emission list \<Rightarrow> bool" where
  "lifecycle before r after =
     (case drop (length before) after of
        [] \<Rightarrow> after = before \<and> isl r
      | [s, t] \<Rightarrow>
          take (length before) after = before
          \<and> fst s = TRANSACTION_SENT \<and> fst (snd s) = None
          \<and> (case r of
                Inr (signature, blockhash, h) \<Rightarrow>
                  snd (snd s) = signature \<and> t = (TRANSACTION_CONFIRMED, None, signature)
              | Inl e \<Rightarrow> is_fatal e \<and> t = (TRANSACTION_FAILED, Some e, snd (snd s)))
      | _ \<Rightarrow> False)"

text \<open>A status response after which the polling loop goes on.\<close>

definition inconclusive :: "js_error + SignatureStatus option \<Rightarrow> bool" where
  "inconclusive resp =
     (case resp of
        Inl e \<Rightarrow> \<not> is_TransactionFailedError e
      | Inr None \<Rightarrow> True
      | Inr (Some info) \<Rightarrow>
          err info = None \<and> confirmationStatus info \<noteq> Some ''confirmed''
          \<and> confirmationStatus info \<noteq> Some ''finalized'')"


definition flaky_operation :: "nat \<Rightarrow> js_error + unit" where
  "flaky_operation k = Inl (Error (network_errors ! (k mod 4)))"

definition toy_key :: "string \<Rightarrow> PublicKey" where
  "toy_key s = PublicKey (map (\<lambda>c. of_nat (of_char c)) s)"

definition good_record :: "(string \<times> json) list" where
  "good_record = [(''credentialId'', JString ''cred-1''), (''studentId'', JString ''stud-1''),
                  (''universityId'', JString ''uni-1''), (''attestationType'', JString ''UNIVERSITY_ISSUED''),
                  (''timestamp'', JNumber 1600000000000)]"

definition toy_runtime :: runtime where
  "toy_runtime =
     \<lparr> JSON_parse = (\<lambda>s. if s = ''{good}'' then Inr (JObject good_record)
                          else Inl (Error ''Unexpected token'')),
       new_PublicKey = (\<lambda>s. if length s = 4 \<and> list_all is_letter s then Inr (toy_key s)
                             else Inl (Error ''Invalid public key input'')) \<rparr>"

definition toy_service :: service where
  "toy_service = default_service \<lparr> programId := toy_key ''prog'' \<rparr>"

definition toy_ledger :: rpc where
  "toy_ledger =
     quiet_rpc \<lparr> getAccountInfo_r :=
       (\<lambda>k pubKey.
          if pubKey = toy_key ''good'' then Inr (Some \<lparr> owner = toy_key ''prog'', acc_data = '' {good} '' \<rparr>)
          else if pubKey = toy_key ''evil'' then Inr (Some \<lparr> owner = toy_key ''mine'', acc_data = ''{good}'' \<rparr>)
          else if pubKey = toy_key ''junk'' then Inr (Some \<lparr> owner = toy_key ''prog'', acc_data = ''{'' \<rparr>)
          else if pubKey = toy_key ''down'' then Inl (Error ''fetch failed'')
          else Inr None) \<rparr>"

definition sample_addresses :: "string list" where
  "sample_addresses = [''good'', ''not an address'', ''none'', ''down'', ''evil'', ''aaaa'', ''aaab'',
                       ''aaac'', ''aaad'', ''aaae'', ''aaaf'', ''aaag'']"

text \<open>The entry was produced by a run of \<open>verifyAttestation\<close> on its own address.\<close>

definition verified :: "rpc \<Rightarrow> runtime \<Rightarrow> service \<Rightarrow> string \<Rightarrow> VerificationResult \<Rightarrow> bool" where
  "verified env rt svc a r = (\<exists>w0. fst (verifyAttestation env rt svc a w0) = Inr r)"

text \<open>
  The partition the specification describes: the list cut into consecutive chunks of a
  fixed size, the last one possibly shorter, and the chunks verified one after the other
  with a pause of 500 ms between two of them.
\<close>

function chunks_of :: "nat \<Rightarrow> 'a list \<Rightarrow> 'a list list" where
  "chunks_of n xs = (if xs = [] \<or> n = 0 then [] else take n xs # chunks_of n (drop n xs))"
  by pat_completeness auto
termination
  by (relation "measure (\<lambda>(n, xs). length xs)") auto

declare chunks_of.simps [simp del]

fun run_chunks ::
  "rpc \<Rightarrow> runtime \<Rightarrow> service \<Rightarrow> string list list \<Rightarrow> result_object \<Rightarrow> world
     \<Rightarrow> (js_error + result_object) \<times> world" where
  "run_chunks env rt svc [] results w = (Inr results, w)"
| "run_chunks env rt svc (chunk # rest) results w =
     (case promise_all_members env rt svc chunk w of
        (Inl e, w1) \<Rightarrow> (Inl e, w1)
      | (Inr chunkResults, w1) \<Rightarrow>
          run_chunks env rt svc rest (store_results results chunkResults)
            (if rest \<noteq> [] then sleep 500 w1 else w1))"

chapter \<open>Properties\<close>

section \<open>Identity derivation\<close>

lemma generateAddressFromNIN_salted:
  assumes "NIN_SALT penv = Some salt" and "salt \<noteq> []"
    and "Keypair_fromSeed L (take 32 (crypto_sha256 L (nin @ salt))) = Inr kp"
  shows "generateAddressFromNIN L penv nin = Inr (toBase58 L (publicKey kp))"
  using assms
  by (simp add: generateAddressFromNIN_def generateSeedFromNIN_def salt_missing_def the_salt_def)

text \<open>
  C1. With the salt set, an address derived from a NIN verifies against that NIN, and
  fails verification against every NIN whose derived address is different; the outcome
  of verification is the comparison of the claimed address with a fresh derivation and
  nothing else.
\<close>

theorem verifyAddressForNIN_roundtrip:
  assumes "NIN_SALT penv = Some salt" and "salt \<noteq> []"
    and "Keypair_fromSeed L (take 32 (crypto_sha256 L (nin @ salt))) = Inr kp"
  shows "\<exists>a. generateAddressFromNIN L penv nin = Inr a
           \<and> verifyAddressForNIN L penv nin a = Inr True
           \<and> (\<forall>nin2 a2. generateAddressFromNIN L penv nin2 = Inr a2 \<and> a2 \<noteq> a
                 \<longrightarrow> verifyAddressForNIN L penv nin2 a = Inr False)
           \<and> (\<forall>nin' claimed. verifyAddressForNIN L penv nin' claimed
                 = map_sum id (\<lambda>expected. expected = claimed) (generateAddressFromNIN L penv nin'))"
proof -
  have g: "generateAddressFromNIN L penv nin = Inr (toBase58 L (publicKey kp))"
    using assms by (rule generateAddressFromNIN_salted)
  have eq: "verifyAddressForNIN L penv nin' claimed
      = map_sum id (\<lambda>expected. expected = claimed) (generateAddressFromNIN L penv nin')"
    for nin' claimed
    by (simp add: verifyAddressForNIN_def split: sum.splits)
  show ?thesis
    using g eq by simp
qed

theorem verifyAddressForNIN_roundtrip_witness:
  "\<exists>a. generateAddressFromNIN toy_lib pepper_env ''7001234567'' = Inr a
     \<and> verifyAddressForNIN toy_lib pepper_env ''7001234567'' a = Inr True
     \<and> verifyAddressForNIN toy_lib pepper_env ''7001234568'' a = Inr False"
proof -
  have s: "NIN_SALT pepper_env = Some ''pepper''" by (simp add: pepper_env_def)
  have ne: "''pepper'' \<noteq> []" by simp
  have k: "Keypair_fromSeed toy_lib (take 32 (crypto_sha256 toy_lib (''7001234567'' @ ''pepper'')))
      = Inr \<lparr> publicKey = rev (toy_digest ''7001234567pepper''),
              secretKey = toy_digest ''7001234567pepper'' @ rev (toy_digest ''7001234567pepper'') \<rparr>"
    by code_simp
  from verifyAddressForNIN_roundtrip [OF s ne k]
  obtain a where a: "generateAddressFromNIN toy_lib pepper_env ''7001234567'' = Inr a"
      "verifyAddressForNIN toy_lib pepper_env ''7001234567'' a = Inr True"
    and others: "\<forall>nin2 a2. generateAddressFromNIN toy_lib pepper_env nin2 = Inr a2 \<and> a2 \<noteq> a
                 \<longrightarrow> verifyAddressForNIN toy_lib pepper_env nin2 a = Inr False"
    by blast
  have d: "generateAddressFromNIN toy_lib pepper_env ''7001234568''
      \<noteq> generateAddressFromNIN toy_lib pepper_env ''7001234567''"
    by code_simp
  have r: "case generateAddressFromNIN toy_lib pepper_env ''7001234568'' of
             Inr _ \<Rightarrow> True | Inl _ \<Rightarrow> False"
    by code_simp
  then obtain a2 where a2: "generateAddressFromNIN toy_lib pepper_env ''7001234568'' = Inr a2"
    by (cases "generateAddressFromNIN toy_lib pepper_env ''7001234568''") auto
  with d a have "a2 \<noteq> a" by auto
  with a2 others have "verifyAddressForNIN toy_lib pepper_env ''7001234568'' a = Inr False"
    by blast
  with a show ?thesis by blast
qed

section \<open>Rate limiting and hashing in NINService\<close>

lemma checkRateLimit_denied:
  assumes "removeTokens_result lim (limiter_calls w) = Inl e
           \<or> (\<exists>r. removeTokens_result lim (limiter_calls w) = Inr r \<and> r < 0)"
  shows "checkRateLimit lim w ip =
           (False, w \<lparr> now := now w + removeTokens_elapsed lim (limiter_calls w),
                       limiter_calls := Suc (limiter_calls w) \<rparr>)"
  using assms by (auto simp: checkRateLimit_def Let_def)

lemma checkRateLimit_ignores_ip: "checkRateLimit lim w ip = checkRateLimit lim w ip'"
  by (simp add: checkRateLimit_def)

text \<open>
  The half of the rate limiting that the code keeps: when the check itself throws, both
  operations return the rate-limit error result and touch nothing else.
\<close>

lemma rate_limit_check_throws:
  assumes "removeTokens_result lim (limiter_calls w) = Inl e"
  shows "generateAddress L penv lim w nin ip countryCode =
           (\<lparr> a_success = False, a_address = None,
              a_error = Some ''Rate limit exceeded. Please try again later.'',
              a_keypair = None, a_countryCode = None, a_cached = False \<rparr>,
            w \<lparr> now := now w + removeTokens_elapsed lim (limiter_calls w),
                limiter_calls := Suc (limiter_calls w) \<rparr>)
       \<and> verifyAddress L penv lim w nin address ip countryCode =
           (\<lparr> r_isValid = False, r_error = Some ''Rate limit exceeded. Please try again later.'',
              r_countryCode = Some countryCode, r_cached = False \<rparr>,
            w \<lparr> now := now w + removeTokens_elapsed lim (limiter_calls w),
                limiter_calls := Suc (limiter_calls w) \<rparr>)"
proof -
  have "checkRateLimit lim w ip =
           (False, w \<lparr> now := now w + removeTokens_elapsed lim (limiter_calls w),
                       limiter_calls := Suc (limiter_calls w) \<rparr>)"
    using assms by (intro checkRateLimit_denied) simp
  then show ?thesis
    by (simp add: generateAddress_def verifyAddress_def)
qed

lemma hourly_limiter_never_negative: "\<exists>r. removeTokens_result hourly_limiter k = Inr r \<and> 0 \<le> r"
proof -
  have "int (k mod 100) \<le> 99"
    using mod_less_divisor [of 100 k] by linarith
  then show ?thesis
    by (simp add: hourly_limiter_def)
qed

lemma hourly_limiter_always_allows: "fst (checkRateLimit hourly_limiter w ip) = True"
  using hourly_limiter_never_negative [of "limiter_calls w"]
  by (auto simp: checkRateLimit_def Let_def)

text \<open>
  C9. The code does not do what the claim says when the bucket is exhausted. The 101st
  call that follows 100 calls at once finds no token left in the hour; the limiter of the
  module holds it until the next hour begins and then answers with 99 tokens left. So
  \<open>checkRateLimit\<close> allows the call, and \<open>generateAddress\<close> and \<open>verifyAddress\<close> serve it an
  hour later (3600000 ms on the clock) instead of returning the rate-limit error at once:
  the address is generated, the verification answers.
\<close>

theorem exhausted_bucket_waits_and_serves:
  "removeTokens_result hourly_limiter 100 = Inr 99
   \<and> removeTokens_elapsed hourly_limiter 100 = 3600000
   \<and> a_success (fst (generateAddress toy_lib pepper_env hourly_limiter
         (empty_nin_world \<lparr> limiter_calls := 100 \<rparr>) ''00100000019'' ''10.0.0.1'' ''NG'')) = True
   \<and> a_error (fst (generateAddress toy_lib pepper_env hourly_limiter
         (empty_nin_world \<lparr> limiter_calls := 100 \<rparr>) ''00100000019'' ''10.0.0.1'' ''NG'')) = None
   \<and> now (snd (generateAddress toy_lib pepper_env hourly_limiter
         (empty_nin_world \<lparr> limiter_calls := 100 \<rparr>) ''00100000019'' ''10.0.0.1'' ''NG''))
       = now empty_nin_world + 3600000
   \<and> r_error (fst (verifyAddress toy_lib pepper_env hourly_limiter
         (empty_nin_world \<lparr> limiter_calls := 100 \<rparr>) ''00100000019'' ''someAddress'' ''10.0.0.1'' ''NG'')) = None
   \<and> now (snd (verifyAddress toy_lib pepper_env hourly_limiter
         (empty_nin_world \<lparr> limiter_calls := 100 \<rparr>) ''00100000019'' ''someAddress'' ''10.0.0.1'' ''NG''))
       = now empty_nin_world + 3600000"
  by code_simp

text \<open>
  C10. The \<open>saltRounds\<close> argument of \<open>NINService.hashNIN\<close> has no influence: from the same
  state, two calls that differ only in \<open>saltRounds\<close> return the same result and leave the
  same cache, because the underlying \<open>hashNIN\<close> receives the argument and ignores it.
\<close>

theorem hashNIN_ignores_saltRounds:
  "NINService_hashNIN L penv w nin r1 countryCode = NINService_hashNIN L penv w nin r2 countryCode
   \<and> hashNIN_call2 L penv nin r1 = hashNIN L penv nin
   \<and> hashNIN_call2 L penv nin r2 = hashNIN L penv nin"
  unfolding NINService_hashNIN_def hashNIN_call2_def by simp

theorem hashNIN_ignores_saltRounds_witness:
  "fst (NINService_hashNIN toy_lib pepper_env empty_nin_world ''00100000019'' 12 ''NG'')
     = \<lparr> h_success = True, h_hash = Some ''h:00100000019pepper'', h_error = None,
         h_countryCode = Some ''NG'', h_cached = False \<rparr>
   \<and> fst (NINService_hashNIN toy_lib pepper_env empty_nin_world ''00100000019'' 10 ''NG'')
     = \<lparr> h_success = True, h_hash = Some ''h:00100000019pepper'', h_error = None,
         h_countryCode = Some ''NG'', h_cached = False \<rparr>"
proof -
  have c: "fst (NINService_hashNIN toy_lib pepper_env empty_nin_world ''00100000019'' 10 ''NG'')
     = \<lparr> h_success = True, h_hash = Some ''h:00100000019pepper'', h_error = None,
         h_countryCode = Some ''NG'', h_cached = False \<rparr>"
    by code_simp
  from hashNIN_ignores_saltRounds [of toy_lib pepper_env empty_nin_world "''00100000019''" 12 "''NG''" 10]
  have "NINService_hashNIN toy_lib pepper_env empty_nin_world ''00100000019'' 12 ''NG''
      = NINService_hashNIN toy_lib pepper_env empty_nin_world ''00100000019'' 10 ''NG''"
    by simp
  with c show ?thesis by simp
qed

section \<open>Retrying an operation that always fails\<close>

lemma upt_from_Suc_int:
  "attempt \<ge> 1 \<Longrightarrow> attempt < maxR \<Longrightarrow>
   [nat (attempt - 1)..<nat (maxR - 1)] = nat (attempt - 1) # [nat attempt..<nat (maxR - 1)]"
proof -
  assume a: "attempt \<ge> 1" "attempt < maxR"
  then have "nat (attempt - 1) < nat (maxR - 1)" by simp
  then have "[nat (attempt - 1)..<nat (maxR - 1)]
      = nat (attempt - 1) # [Suc (nat (attempt - 1))..<nat (maxR - 1)]"
    by (rule upt_conv_Cons)
  moreover from a have "Suc (nat (attempt - 1)) = nat attempt" by simp
  ultimately show ?thesis by simp
qed

lemma withRetry_loop_always_fails:
  shows "\<forall>k. operation k = Inl (errs k) \<Longrightarrow> 1 \<le> attempt \<Longrightarrow> attempt \<le> maxR \<Longrightarrow>
     withRetry_loop operation maxR d attempt lastError lg =
       (Inl (errs (invocations lg + nat (maxR - attempt))),
        \<lparr> invocations = invocations lg + nat (maxR - attempt) + 1,
          slept = slept lg @ map (\<lambda>i. d * 2 ^ i) [nat (attempt - 1)..<nat (maxR - 1)] \<rparr>)"
proof (induction operation maxR d attempt lastError lg rule: withRetry_loop.induct)
  case (1 operation maxR d attempt lastError lg)
  then have fails: "\<And>k. operation k = Inl (errs k)" by simp
  show ?case
  proof (cases "attempt < maxR")
    case True
    let ?lg2 = "lg \<lparr> invocations := Suc (invocations lg),
                      slept := slept lg @ [d * 2 ^ nat (attempt - 1)] \<rparr>"
    have step: "withRetry_loop operation maxR d attempt lastError lg
        = withRetry_loop operation maxR d (attempt + 1) (Some (errs (invocations lg))) ?lg2"
      using True "1.prems"
      by (subst withRetry_loop.simps) (simp add: fails Let_def)
    have ih: "withRetry_loop operation maxR d (attempt + 1) (Some (errs (invocations lg))) ?lg2
        = (Inl (errs (invocations ?lg2 + nat (maxR - (attempt + 1)))),
           \<lparr> invocations = invocations ?lg2 + nat (maxR - (attempt + 1)) + 1,
             slept = slept ?lg2 @ map (\<lambda>i. d * 2 ^ i) [nat (attempt + 1 - 1)..<nat (maxR - 1)] \<rparr>)"
    proof -
      have le: "attempt \<le> maxR" using True by simp
      have f: "operation (invocations lg) = Inl (errs (invocations lg))" by (rule fails)
      from "1.IH" [OF le f refl refl "1.prems"(1)] True "1.prems"(2,3) show ?thesis by simp
    qed
    have idx: "nat (maxR - (attempt + 1)) = nat (maxR - attempt) - 1" "0 < nat (maxR - attempt)"
      using True by simp_all
    have up: "[nat (attempt - 1)..<nat (maxR - 1)] = nat (attempt - 1) # [nat attempt..<nat (maxR - 1)]"
      using True "1.prems"(2) by (simp add: upt_from_Suc_int)
    show ?thesis
      unfolding step ih up using idx(2) by (simp add: idx(1))
  next
    case False
    with "1.prems" have eq: "attempt = maxR" by simp
    have "withRetry_loop operation maxR d attempt lastError lg
        = withRetry_loop operation maxR d (attempt + 1) (Some (errs (invocations lg)))
            (lg \<lparr> invocations := Suc (invocations lg) \<rparr>)"
      using eq by (subst withRetry_loop.simps) (simp add: fails Let_def)
    also have "\<dots> = (Inl (errs (invocations lg)), lg \<lparr> invocations := Suc (invocations lg) \<rparr>)"
      using eq by (subst withRetry_loop.simps) simp
    finally show ?thesis
      using eq by simp
  qed
qed

lemma withRetry_always_fails:
  assumes "\<forall>k. operation k = Inl (errs k)" and "1 \<le> maxR"
  shows "withRetry operation maxR d =
       (Inl (errs (nat maxR - 1)),
        \<lparr> invocations = nat maxR, slept = map (\<lambda>i. d * 2 ^ i) [0..<nat maxR - 1] \<rparr>)"
proof -
  have "nat (maxR - 1) = nat maxR - 1" by simp
  moreover have "Suc (nat (maxR - 1)) = nat maxR" using assms(2) by simp
  ultimately show ?thesis
    using withRetry_loop_always_fails [of operation errs 1 maxR d None empty_log, OF assms(1)] assms(2)
    by (simp add: withRetry_def empty_log_def)
qed

lemma withRetry_no_attempt:
  "maxR < 1 \<Longrightarrow> withRetry operation maxR d =
     (Inl (Error ''Operation failed after maximum retries''), empty_log)"
  by (simp add: withRetry_def withRetry_loop.simps)

section \<open>The confirmation wait\<close>

lemma polling_frame_refl: "polling_frame w w"
  by (simp add: polling_frame_def)

lemma polling_frame_trans: "polling_frame a b \<Longrightarrow> polling_frame b c \<Longrightarrow> polling_frame a c"
  by (simp add: polling_frame_def)

lemma check_status_frame: "polling_frame w (snd (check_status env signature w))"
  by (auto simp: polling_frame_def check_status_def getSignatureStatuses_def Let_def
      split: sum.splits option.splits)

lemma check_slot_frame: "polling_frame w (snd (check_slot env signature h w))"
  by (auto simp: polling_frame_def check_slot_def getSlot_def Let_def split: sum.splits)

lemma poll_once_frame: "polling_frame w (snd (poll_once env signature h w))"
proof -
  have a: "polling_frame w (snd (check_status env signature w))"
    by (rule check_status_frame)
  have b: "polling_frame (snd (check_status env signature w))
             (snd (check_slot env signature h (snd (check_status env signature w))))"
    by (rule check_slot_frame)
  show ?thesis
    using a polling_frame_trans [OF a b]
    by (auto simp: poll_once_def split: prod.splits poll_outcome.splits)
qed

lemma sleep_frame: "polling_frame w (sleep ms w)"
  by (simp add: polling_frame_def sleep_def)

lemma check_status_Throw:
  "check_status env signature w = (Throw e, w1) \<Longrightarrow> is_TransactionFailedError e"
  by (auto simp: check_status_def is_TransactionFailedError_def
      split: prod.splits sum.splits option.splits if_splits)

lemma check_slot_Continue: "fst (check_slot env signature h w) = Continue"
  by (auto simp: check_slot_def split: prod.splits sum.splits)

lemma poll_once_Throw:
  assumes "poll_once env signature h w = (Throw e, w1)"
  shows "is_TransactionFailedError e"
proof (cases "check_status env signature w")
  case (Pair outcome w0)
  show ?thesis
  proof (cases outcome)
    case Continue
    with Pair assms have "check_slot env signature h w0 = (Throw e, w1)"
      by (simp add: poll_once_def)
    then have "fst (check_slot env signature h w0) = Throw e" by simp
    then show ?thesis by (simp add: check_slot_Continue)
  next
    case Return
    with Pair assms show ?thesis by (simp add: poll_once_def)
  next
    case (Throw e')
    with Pair assms have "e' = e" by (simp add: poll_once_def)
    with Pair Throw show ?thesis using check_status_Throw by blast
  qed
qed

lemma waitForConfirmation_loop_outcome:
  "waitForConfirmation_loop env svc signature h start w = (r, w') \<Longrightarrow>
     polling_frame w w' \<and> (case r of Inr u \<Rightarrow> True | Inl e \<Rightarrow> is_fatal e)"
proof (induction env svc signature h start w rule: waitForConfirmation_loop.induct)
  case (1 env svc signature h start w)
  show ?case
  proof (cases "clock w - start < confirmationTimeout svc")
    case False
    with "1.prems" show ?thesis
      by (subst (asm) waitForConfirmation_loop.simps)
         (auto simp: polling_frame_refl is_fatal_def is_TransactionTimeoutError_def)
  next
    case True
    obtain outcome w1 where p: "poll_once env signature h w = (outcome, w1)"
      by (cases "poll_once env signature h w")
    have fr: "polling_frame w w1"
      using poll_once_frame [of w env signature h] p by simp
    show ?thesis
    proof (cases outcome)
      case Return
      with True p "1.prems" fr show ?thesis
        by (subst (asm) waitForConfirmation_loop.simps) auto
    next
      case (Throw e)
      with p have "is_TransactionFailedError e" using poll_once_Throw by blast
      with Throw True p "1.prems" fr show ?thesis
        by (subst (asm) waitForConfirmation_loop.simps) (auto simp: is_fatal_def)
    next
      case Continue
      with True p "1.prems"
      have rec: "waitForConfirmation_loop env svc signature h start (sleep 1000 w1) = (r, w')"
        by (subst (asm) waitForConfirmation_loop.simps) simp
      have "polling_frame (sleep 1000 w1) w' \<and> (case r of Inr u \<Rightarrow> True | Inl e \<Rightarrow> is_fatal e)"
        using "1.IH" [OF True p [symmetric] Continue rec] .
      moreover have "polling_frame w (sleep 1000 w1)"
        using fr sleep_frame polling_frame_trans by blast
      ultimately show ?thesis
        using polling_frame_trans by blast
    qed
  qed
qed

section \<open>One attempt and the retry loop\<close>

lemma waitForConfirmation_outcome:
  "waitForConfirmation env svc signature h w = (r, w') \<Longrightarrow>
     polling_frame w w' \<and> (case r of Inr u \<Rightarrow> True | Inl e \<Rightarrow> is_fatal e)"
  unfolding waitForConfirmation_def by (rule waitForConfirmation_loop_outcome)

lemma attempt_once_shape:
  assumes "attempt_once env svc w = (r, w')"
  shows "attempt_shape w r w'
         \<and> calls_getLatestBlockhash w' = Suc (calls_getLatestBlockhash w)
         \<and> calls_sendRawTransaction w' \<le> Suc (calls_sendRawTransaction w)
         \<and> calls_random w' = calls_random w"
proof (cases "getLatestBlockhash_r env (calls_getLatestBlockhash w)")
  case (Inl e)
  with assms show ?thesis
    by (auto simp: attempt_once_def getLatestBlockhash_def Let_def attempt_shape_def)
next
  case (Inr bh)
  obtain blockhash h where bh: "bh = (blockhash, h)" by (cases bh)
  let ?w1 = "snd (getLatestBlockhash env w)"
  show ?thesis
  proof (cases "sign_serialize_r env (calls_sign w)")
    case (Inl e)
    with Inr bh assms show ?thesis
      by (auto simp: attempt_once_def getLatestBlockhash_def sign_serialize_def Let_def
          attempt_shape_def)
  next
    case sg: (Inr u)
    show ?thesis
    proof (cases "sendRawTransaction_r env (calls_sendRawTransaction w)")
      case (Inl e)
      with Inr bh sg assms show ?thesis
        by (auto simp: attempt_once_def getLatestBlockhash_def sign_serialize_def
            sendRawTransaction_def Let_def attempt_shape_def)
    next
      case sd: (Inr signature)
      let ?w3 = "w \<lparr> clock := clock w + int (elapsed env GetLatestBlockhash (calls_getLatestBlockhash w)),
                      calls_getLatestBlockhash := Suc (calls_getLatestBlockhash w),
                      calls_sign := Suc (calls_sign w),
                      clock := clock w + int (elapsed env GetLatestBlockhash (calls_getLatestBlockhash w))
                               + int (elapsed env SendRawTransaction (calls_sendRawTransaction w)),
                      calls_sendRawTransaction := Suc (calls_sendRawTransaction w) \<rparr>"
      let ?w4 = "emit (TRANSACTION_SENT, None, signature) ?w3"
      obtain wr w5 where wt: "waitForConfirmation env svc signature h ?w4 = (wr, w5)"
        by (cases "waitForConfirmation env svc signature h ?w4")
      have fr: "polling_frame ?w4 w5" and fatal: "case wr of Inr u \<Rightarrow> True | Inl e \<Rightarrow> is_fatal e"
        using waitForConfirmation_outcome [OF wt] by simp_all
      have unfold: "attempt_once env svc w =
          (case wr of
             Inr u \<Rightarrow> (Inr (signature, blockhash, h), emit (TRANSACTION_CONFIRMED, None, signature) w5)
           | Inl e \<Rightarrow> (Inl e, emit (TRANSACTION_FAILED, Some e, signature) w5))"
        using Inr bh sg sd wt
        by (simp add: attempt_once_def getLatestBlockhash_def sign_serialize_def
            sendRawTransaction_def Let_def)
      show ?thesis
      proof (cases wr)
        case (Inl e)
        with unfold assms have "r = Inl e" "w' = emit (TRANSACTION_FAILED, Some e, signature) w5"
          by simp_all
        moreover from Inl fatal have "is_fatal e" by simp
        ultimately show ?thesis
          using fr by (simp add: attempt_shape_def polling_frame_def emit_def nth_append)
      next
        case (Inr u)
        with unfold assms have "r = Inr (signature, blockhash, h)"
            "w' = emit (TRANSACTION_CONFIRMED, None, signature) w5"
          by simp_all
        then show ?thesis
          using fr by (simp add: attempt_shape_def polling_frame_def emit_def)
      qed
    qed
  qed
qed

lemma loop_exhausted:
  "\<not> attempt \<le> retries \<Longrightarrow>
   sendTransactionWithRetry_loop env svc retries attempt w =
     (Inl (BlockchainError ''Failed to send transaction (unknown reason)''), w)"
  by (subst sendTransactionWithRetry_loop.simps) simp

lemma loop_success:
  "attempt \<le> retries \<Longrightarrow> attempt_once env svc w = (Inr x, w1) \<Longrightarrow>
   sendTransactionWithRetry_loop env svc retries attempt w = (Inr x, w1)"
  by (subst sendTransactionWithRetry_loop.simps) simp

lemma loop_fatal:
  "attempt \<le> retries \<Longrightarrow> attempt_once env svc w = (Inl e, w1) \<Longrightarrow> is_fatal e \<Longrightarrow>
   sendTransactionWithRetry_loop env svc retries attempt w = (Inl e, w1)"
  by (subst sendTransactionWithRetry_loop.simps) simp

lemma loop_last:
  "attempt = retries \<Longrightarrow> attempt_once env svc w = (Inl e, w1) \<Longrightarrow> \<not> is_fatal e \<Longrightarrow>
   sendTransactionWithRetry_loop env svc retries attempt w =
     (Inl (BlockchainError (''Failed to send transaction after retries: '' @ message e)), w1)"
  by (subst sendTransactionWithRetry_loop.simps) simp

lemma loop_retry:
  "attempt < retries \<Longrightarrow> attempt_once env svc w = (Inl e, w1) \<Longrightarrow> \<not> is_fatal e \<Longrightarrow>
   sendTransactionWithRetry_loop env svc retries attempt w =
     sendTransactionWithRetry_loop env svc retries (attempt + 1) (backoff_sleep env svc attempt w1)"
  by (subst sendTransactionWithRetry_loop.simps)
     (simp add: backoff_sleep_def Let_def split: prod.splits)

lemma backoff_sleep_fields:
  "emitted (backoff_sleep env svc attempt w1) = emitted w1"
  "calls_getLatestBlockhash (backoff_sleep env svc attempt w1) = calls_getLatestBlockhash w1"
  "calls_sendRawTransaction (backoff_sleep env svc attempt w1) = calls_sendRawTransaction w1"
  "calls_sign (backoff_sleep env svc attempt w1) = calls_sign w1"
  "calls_random (backoff_sleep env svc attempt w1) = Suc (calls_random w1)"
  "sleeps (backoff_sleep env svc attempt w1) =
     sleeps w1 @ [retryDelay svc * 2 ^ nat attempt + int (Math_random_r env (calls_random w1) mod 500)]"
  by (simp_all add: backoff_sleep_def sleep_def random_jitter_def Let_def)

lemma lifecycle_unchanged: "lifecycle before (Inl e) before"
  by (simp add: lifecycle_def)

lemma length_two: "length xs = Suc (Suc 0) \<Longrightarrow> \<exists>a b. xs = [a, b]"
  by (auto simp: length_Suc_conv)

lemma two_more:
  assumes "length after = length before + 2" and "take (length before) after = before"
  shows "drop (length before) after = [after ! length before, after ! Suc (length before)]"
proof -
  have "length (drop (length before) after) = Suc (Suc 0)" using assms(1) by simp
  then obtain a b where ab: "drop (length before) after = [a, b]"
    using length_two by blast
  have "after = take (length before) after @ drop (length before) after" by simp
  with ab assms(2) have split: "after = before @ [a, b]" by simp
  have "after ! length before = a"
    by (subst split) (simp add: nth_append)
  moreover have "after ! Suc (length before) = b"
    by (subst split) (simp add: nth_append)
  ultimately show ?thesis using ab by simp
qed

lemma attempt_shape_lifecycle:
  assumes "attempt_shape w r w'"
  shows "lifecycle (emitted w) r (emitted w') \<or> (\<exists>e. r = Inl e \<and> \<not> is_fatal e \<and> emitted w' = emitted w)"
proof (cases r)
  case (Inr x)
  obtain signature blockhash h where x: "x = (signature, blockhash, h)" by (cases x)
  with Inr assms show ?thesis
    by (simp add: attempt_shape_def lifecycle_def)
next
  case (Inl e)
  show ?thesis
  proof (cases "emitted w' = emitted w")
    case True
    with Inl show ?thesis by (cases "is_fatal e") (simp_all add: lifecycle_def)
  next
    case False
    with Inl assms have f: "is_fatal e"
        and len: "length (emitted w') = length (emitted w) + 2"
        and tk: "take (length (emitted w)) (emitted w') = emitted w"
        and s: "fst (emitted w' ! length (emitted w)) = TRANSACTION_SENT"
               "fst (snd (emitted w' ! length (emitted w))) = None"
        and t: "emitted w' ! Suc (length (emitted w))
                  = (TRANSACTION_FAILED, Some e, snd (snd (emitted w' ! length (emitted w))))"
      by (simp_all add: attempt_shape_def)
    have "drop (length (emitted w)) (emitted w')
        = [emitted w' ! length (emitted w), emitted w' ! Suc (length (emitted w))]"
      using len tk by (rule two_more)
    with Inl f tk s t show ?thesis
      by (simp add: lifecycle_def)
  qed
qed

lemma attempt_shape_nonfatal:
  "attempt_shape w (Inl e) w' \<Longrightarrow> \<not> is_fatal e \<Longrightarrow> emitted w' = emitted w"
  by (auto simp: attempt_shape_def)

lemma loop_lifecycle:
  "nat (retries + 1 - attempt) = n \<Longrightarrow>
   sendTransactionWithRetry_loop env svc retries attempt w = (r, w') \<Longrightarrow>
   lifecycle (emitted w) r (emitted w')"
proof (induction n arbitrary: attempt w)
  case 0
  then have "\<not> attempt \<le> retries" by simp
  with "0.prems"(2) show ?case
    by (auto simp: loop_exhausted lifecycle_unchanged)
next
  case (Suc n)
  then have le: "attempt \<le> retries" by simp
  obtain a w1 where at: "attempt_once env svc w = (a, w1)"
    by (cases "attempt_once env svc w")
  have shape: "attempt_shape w a w1"
    using attempt_once_shape [OF at] by simp
  show ?case
  proof (cases a)
    case (Inr x)
    with le at Suc.prems(2) have "r = a" "w' = w1"
      by (simp_all add: loop_success)
    with shape Inr show ?thesis
      using attempt_shape_lifecycle by fastforce
  next
    case (Inl e)
    show ?thesis
    proof (cases "is_fatal e")
      case True
      with le at Inl Suc.prems(2) have "r = a" "w' = w1"
        by (simp_all add: loop_fatal)
      with shape Inl True show ?thesis
        using attempt_shape_lifecycle by fastforce
    next
      case False
      have same: "emitted w1 = emitted w"
        using shape Inl False by (simp add: attempt_shape_nonfatal)
      show ?thesis
      proof (cases "attempt = retries")
        case True
        with at Inl False Suc.prems(2) same show ?thesis
          by (auto simp: loop_last lifecycle_unchanged)
      next
        case ne: False
        with le have lt: "attempt < retries" by simp
        have rec: "sendTransactionWithRetry_loop env svc retries (attempt + 1)
                     (backoff_sleep env svc attempt w1) = (r, w')"
          using loop_retry [OF lt _ False] at Inl Suc.prems(2) by simp
        have "nat (retries + 1 - (attempt + 1)) = n"
          using Suc.prems(1) by simp
        from Suc.IH [OF this rec] show ?thesis
          by (simp add: backoff_sleep_fields same)
      qed
    qed
  qed
qed

lemma attempt_once_send_fails:
  assumes "getLatestBlockhash_r env (calls_getLatestBlockhash w) = Inr bh"
    and "sign_serialize_r env (calls_sign w) = Inr ()"
    and "sendRawTransaction_r env (calls_sendRawTransaction w) = Inl e"
  shows "\<exists>w1. attempt_once env svc w = (Inl e, w1)
           \<and> calls_sendRawTransaction w1 = Suc (calls_sendRawTransaction w)
           \<and> calls_getLatestBlockhash w1 = Suc (calls_getLatestBlockhash w)
           \<and> calls_sign w1 = Suc (calls_sign w)
           \<and> calls_random w1 = calls_random w
           \<and> emitted w1 = emitted w \<and> sleeps w1 = sleeps w"
  using assms
  by (cases bh)
     (simp add: attempt_once_def getLatestBlockhash_def sign_serialize_def
        sendRawTransaction_def Let_def)

lemma loop_send_always_fails:
  assumes bh: "\<forall>k. \<exists>b. getLatestBlockhash_r env k = Inr b"
    and sg: "\<forall>k. sign_serialize_r env k = Inr ()"
    and sd: "\<forall>k. sendRawTransaction_r env k = Inl (errs k) \<and> \<not> is_fatal (errs k)"
  shows "nat (retries - attempt) = n \<Longrightarrow> 0 \<le> attempt \<Longrightarrow> attempt \<le> retries \<Longrightarrow>
     \<exists>w'. sendTransactionWithRetry_loop env svc retries attempt w =
            (Inl (BlockchainError (''Failed to send transaction after retries: ''
                    @ message (errs (calls_sendRawTransaction w + n)))), w')
       \<and> calls_sendRawTransaction w' = calls_sendRawTransaction w + n + 1
       \<and> calls_getLatestBlockhash w' = calls_getLatestBlockhash w + n + 1
       \<and> emitted w' = emitted w
       \<and> calls_random w' = calls_random w + n
       \<and> sleeps w' = sleeps w @ map (\<lambda>i. retryDelay svc * 2 ^ (nat attempt + i)
                                          + int (Math_random_r env (calls_random w + i) mod 500)) [0..<n]"
proof (induction n arbitrary: attempt w)
  case 0
  then have eq: "attempt = retries" by simp
  obtain b where b: "getLatestBlockhash_r env (calls_getLatestBlockhash w) = Inr b"
    using bh by blast
  obtain w1 where w1: "attempt_once env svc w = (Inl (errs (calls_sendRawTransaction w)), w1)"
      "calls_sendRawTransaction w1 = Suc (calls_sendRawTransaction w)"
      "calls_getLatestBlockhash w1 = Suc (calls_getLatestBlockhash w)"
      "calls_random w1 = calls_random w" "emitted w1 = emitted w" "sleeps w1 = sleeps w"
    using attempt_once_send_fails [OF b] sg sd by metis
  have "sendTransactionWithRetry_loop env svc retries attempt w =
      (Inl (BlockchainError (''Failed to send transaction after retries: ''
              @ message (errs (calls_sendRawTransaction w)))), w1)"
    using loop_last [OF eq w1(1)] sd by simp
  with w1 show ?case by simp
next
  case (Suc n)
  then have lt: "attempt < retries" by simp
  obtain b where b: "getLatestBlockhash_r env (calls_getLatestBlockhash w) = Inr b"
    using bh by blast
  obtain w1 where w1: "attempt_once env svc w = (Inl (errs (calls_sendRawTransaction w)), w1)"
      "calls_sendRawTransaction w1 = Suc (calls_sendRawTransaction w)"
      "calls_getLatestBlockhash w1 = Suc (calls_getLatestBlockhash w)"
      "calls_random w1 = calls_random w" "emitted w1 = emitted w" "sleeps w1 = sleeps w"
    using attempt_once_send_fails [OF b] sg sd by metis
  let ?ws = "backoff_sleep env svc attempt w1"
  have step: "sendTransactionWithRetry_loop env svc retries attempt w =
      sendTransactionWithRetry_loop env svc retries (attempt + 1) ?ws"
    using loop_retry [OF lt w1(1)] sd by simp
  have n: "nat (retries - (attempt + 1)) = n" "0 \<le> attempt + 1" "attempt + 1 \<le> retries"
    using Suc.prems by simp_all
  from Suc.IH [OF n, of ?ws]
  obtain w' where w': "sendTransactionWithRetry_loop env svc retries (attempt + 1) ?ws =
            (Inl (BlockchainError (''Failed to send transaction after retries: ''
                    @ message (errs (calls_sendRawTransaction ?ws + n)))), w')"
       "calls_sendRawTransaction w' = calls_sendRawTransaction ?ws + n + 1"
       "calls_getLatestBlockhash w' = calls_getLatestBlockhash ?ws + n + 1"
       "emitted w' = emitted ?ws"
       "calls_random w' = calls_random ?ws + n"
       "sleeps w' = sleeps ?ws @ map (\<lambda>i. retryDelay svc * 2 ^ (nat (attempt + 1) + i)
                                          + int (Math_random_r env (calls_random ?ws + i) mod 500)) [0..<n]"
    by blast
  have nat1: "nat (attempt + 1) = Suc (nat attempt)"
    using Suc.prems(2) by simp
  have "sleeps w' = sleeps w @ map (\<lambda>i. retryDelay svc * 2 ^ (nat attempt + i)
                                          + int (Math_random_r env (calls_random w + i) mod 500)) [0..<Suc n]"
    unfolding w'(6) map_upt_Suc
    by (simp add: backoff_sleep_fields w1 nat1)
  with step w' w1 show ?case
    by (simp add: backoff_sleep_fields)
qed

lemma check_status_inconclusive:
  "inconclusive (getSignatureStatuses_r env (calls_getSignatureStatuses w)) \<Longrightarrow>
   fst (check_status env signature w) = Continue"
proof (cases "getSignatureStatuses_r env (calls_getSignatureStatuses w)")
  case (Inl e)
  assume "inconclusive (getSignatureStatuses_r env (calls_getSignatureStatuses w))"
  with Inl show ?thesis
    by (simp add: inconclusive_def check_status_def getSignatureStatuses_def Let_def)
next
  case (Inr resp)
  assume inc: "inconclusive (getSignatureStatuses_r env (calls_getSignatureStatuses w))"
  show ?thesis
  proof (cases resp)
    case None
    with Inr show ?thesis
      by (simp add: check_status_def getSignatureStatuses_def Let_def)
  next
    case (Some info)
    with Inr inc have "err info = None" "confirmationStatus info \<noteq> Some ''confirmed''"
        "confirmationStatus info \<noteq> Some ''finalized''"
      by (simp_all add: inconclusive_def)
    with Inr Some show ?thesis
      by (simp add: check_status_def getSignatureStatuses_def Let_def)
  qed
qed







section \<open>Fatal errors end the submission\<close>

lemma submission_send_always_fails:
  assumes "\<forall>k. \<exists>b. getLatestBlockhash_r env k = Inr b"
    and "\<forall>k. sign_serialize_r env k = Inr ()"
    and "\<forall>k. sendRawTransaction_r env k = Inl (errs k) \<and> \<not> is_fatal (errs k)"
    and "0 \<le> retries"
  shows "\<exists>w'. sendTransactionWithRetry env svc (Some retries) w =
            (Inl (BlockchainError (''Failed to send transaction after retries: ''
                    @ message (errs (calls_sendRawTransaction w + nat retries)))), w')
       \<and> calls_sendRawTransaction w' = calls_sendRawTransaction w + nat retries + 1
       \<and> calls_getLatestBlockhash w' = calls_getLatestBlockhash w + nat retries + 1
       \<and> emitted w' = emitted w
       \<and> calls_random w' = calls_random w + nat retries
       \<and> sleeps w' = sleeps w @ map (\<lambda>i. retryDelay svc * 2 ^ i
                                          + int (Math_random_r env (calls_random w + i) mod 500))
                                     [0..<nat retries]"
proof -
  have n: "nat (retries - 0) = nat retries" by simp
  from loop_send_always_fails [OF assms(1-3) n _ assms(4), of svc w]
  show ?thesis
    by (simp add: sendTransactionWithRetry_def)
qed

lemma send_down_rpc_scenario:
  "\<forall>k. \<exists>b. getLatestBlockhash_r send_down_rpc k = Inr b"
  "\<forall>k. sign_serialize_r send_down_rpc k = Inr ()"
  "\<forall>k. sendRawTransaction_r send_down_rpc k = Inl (Error (network_errors ! (k mod 4)))
       \<and> \<not> is_fatal (Error (network_errors ! (k mod 4)))"
  by (simp_all add: send_down_rpc_def quiet_rpc_def is_fatal_def is_TransactionFailedError_def
      is_TransactionTimeoutError_def)

lemma preflight_rejecting_rpc_scenario:
  "\<forall>k. \<exists>b. getLatestBlockhash_r preflight_rejecting_rpc k = Inr b"
  "\<forall>k. sign_serialize_r preflight_rejecting_rpc k = Inr ()"
  "\<forall>k. sendRawTransaction_r preflight_rejecting_rpc k
         = Inl (Error ''Transaction simulation failed: Error processing Instruction 0: custom program error: 0x1'')
       \<and> \<not> is_fatal (Error ''Transaction simulation failed: Error processing Instruction 0: custom program error: 0x1'')"
  by (simp_all add: preflight_rejecting_rpc_def quiet_rpc_def is_fatal_def
      is_TransactionFailedError_def is_TransactionTimeoutError_def)

lemma check_status_world:
  "snd (check_status env signature w) = snd (getSignatureStatuses env w)"
  by (auto simp: check_status_def split: prod.splits sum.splits option.splits)

lemma check_slot_world: "snd (check_slot env signature h w) = snd (getSlot env w)"
  by (auto simp: check_slot_def split: prod.splits sum.splits)

text \<open>One inconclusive turn of the polling loop: one status call, and the two latencies on the clock.\<close>

lemma poll_once_goes_on:
  assumes "inconclusive (getSignatureStatuses_r env (calls_getSignatureStatuses w))"
    and "\<forall>k. elapsed env GetSignatureStatuses k \<le> L \<and> elapsed env GetSlot k \<le> L"
  shows "\<exists>w1. poll_once env signature h w = (Continue, w1)
           \<and> calls_getSignatureStatuses w1 = Suc (calls_getSignatureStatuses w)
           \<and> clock w1 \<le> clock w + 2 * int L"
proof -
  obtain wa where cs: "check_status env signature w = (Continue, wa)"
    using check_status_inconclusive [OF assms(1), of signature]
    by (cases "check_status env signature w") simp
  have wa: "wa = snd (getSignatureStatuses env w)"
    using check_status_world [of env signature w] cs by simp
  obtain o2 w1 where sl: "check_slot env signature h wa = (o2, w1)"
    by (cases "check_slot env signature h wa")
  have o2: "o2 = Continue"
    using check_slot_Continue [of env signature h wa] sl by simp
  have w1: "w1 = snd (getSlot env wa)"
    using check_slot_world [of env signature h wa] sl by simp
  have l1: "int (elapsed env GetSignatureStatuses (calls_getSignatureStatuses w)) \<le> int L"
    using assms(2) by simp
  have l2: "int (elapsed env GetSlot (calls_getSlot w)) \<le> int L"
    using assms(2) by simp
  have "poll_once env signature h w = (Continue, w1)"
    using cs sl o2 by (simp add: poll_once_def)
  moreover have "calls_getSignatureStatuses w1 = Suc (calls_getSignatureStatuses w)"
    unfolding w1 wa by (simp add: getSlot_def getSignatureStatuses_def Let_def)
  moreover have "clock w1 \<le> clock w + 2 * int L"
    unfolding w1 wa using l1 l2 by (simp add: getSlot_def getSignatureStatuses_def Let_def)
  ultimately show ?thesis by blast
qed

lemma poll_once_rejected:
  assumes "getSignatureStatuses_r env (calls_getSignatureStatuses w) = Inr (Some info)"
    and "err info = Some j"
  shows "fst (poll_once env signature h w)
           = Throw (TransactionFailedError (''Transaction failed: '' @ j) signature)"
  using assms
  by (simp add: poll_once_def check_status_def getSignatureStatuses_def Let_def)

text \<open>
  The status polls \<open>0\<close> to \<open>p - 1\<close> of a wait are inconclusive and poll \<open>p\<close> reports an
  error; every turn takes at most the two latencies and the sleep of 1000 ms, so poll \<open>p\<close>
  is reached before the timeout.
\<close>

lemma wait_rejected_at_poll:
  assumes lat: "\<forall>k. elapsed env GetSignatureStatuses k \<le> L \<and> elapsed env GetSlot k \<le> L"
    and rej: "err info = Some j"
  shows "(\<forall>q<p. inconclusive (getSignatureStatuses_r env (calls_getSignatureStatuses w + q))) \<Longrightarrow>
     getSignatureStatuses_r env (calls_getSignatureStatuses w + p) = Inr (Some info) \<Longrightarrow>
     clock w - start + int p * (1000 + 2 * int L) < confirmationTimeout svc \<Longrightarrow>
     fst (waitForConfirmation_loop env svc signature h start w)
       = Inl (TransactionFailedError (''Transaction failed: '' @ j) signature)"
proof (induction p arbitrary: w)
  case 0
  then have t: "clock w - start < confirmationTimeout svc" by simp
  from 0 have "getSignatureStatuses_r env (calls_getSignatureStatuses w) = Inr (Some info)"
    by simp
  from poll_once_rejected [OF this rej, of signature h]
  obtain wa where "poll_once env signature h w
      = (Throw (TransactionFailedError (''Transaction failed: '' @ j) signature), wa)"
    by (cases "poll_once env signature h w") simp
  with t show ?case
    by (subst waitForConfirmation_loop.simps) simp
next
  case (Suc p)
  have nonneg: "0 \<le> int (Suc p) * (1000 + 2 * int L)" by simp
  with Suc.prems(3) have t: "clock w - start < confirmationTimeout svc" by linarith
  from Suc.prems(1) have "inconclusive (getSignatureStatuses_r env (calls_getSignatureStatuses w))"
    by (metis add.right_neutral zero_less_Suc)
  from poll_once_goes_on [OF this lat, of signature h]
  obtain w1 where w1: "poll_once env signature h w = (Continue, w1)"
      "calls_getSignatureStatuses w1 = Suc (calls_getSignatureStatuses w)"
      "clock w1 \<le> clock w + 2 * int L"
    by blast
  let ?w2 = "sleep 1000 w1"
  have step: "waitForConfirmation_loop env svc signature h start w
      = waitForConfirmation_loop env svc signature h start ?w2"
    using t w1(1) by (subst waitForConfirmation_loop.simps) simp
  have calls: "calls_getSignatureStatuses ?w2 = Suc (calls_getSignatureStatuses w)"
    using w1(2) by (simp add: sleep_def)
  have a: "\<forall>q<p. inconclusive (getSignatureStatuses_r env (calls_getSignatureStatuses ?w2 + q))"
  proof (intro allI impI)
    fix q assume "q < p"
    then have "Suc q < Suc p" by simp
    with Suc.prems(1)
    have "inconclusive (getSignatureStatuses_r env (calls_getSignatureStatuses w + Suc q))"
      by blast
    then show "inconclusive (getSignatureStatuses_r env (calls_getSignatureStatuses ?w2 + q))"
      unfolding calls by simp
  qed
  have b: "getSignatureStatuses_r env (calls_getSignatureStatuses ?w2 + p) = Inr (Some info)"
    unfolding calls using Suc.prems(2) by simp
  have "clock ?w2 = clock w1 + 1000" by (simp add: sleep_def)
  with w1(3) have "clock ?w2 \<le> clock w + (1000 + 2 * int L)" by simp
  moreover have "int (Suc p) * (1000 + 2 * int L) = (1000 + 2 * int L) + int p * (1000 + 2 * int L)"
    by (simp add: algebra_simps)
  ultimately have c: "clock ?w2 - start + int p * (1000 + 2 * int L) < confirmationTimeout svc"
    using Suc.prems(3) by linarith
  from Suc.IH [OF a b c] step show ?case by simp
qed

lemma rejection_fatal: "is_fatal (TransactionFailedError m s)"
  by (simp add: is_fatal_def is_TransactionFailedError_def)

lemma attempt_rejected_at_poll:
  assumes "getLatestBlockhash_r env (calls_getLatestBlockhash w) = Inr (blockhash, h)"
    and "sign_serialize_r env (calls_sign w) = Inr ()"
    and "sendRawTransaction_r env (calls_sendRawTransaction w) = Inr signature"
    and "\<forall>k. elapsed env GetSignatureStatuses k \<le> L \<and> elapsed env GetSlot k \<le> L"
    and "\<forall>q<p. inconclusive (getSignatureStatuses_r env (calls_getSignatureStatuses w + q))"
    and "getSignatureStatuses_r env (calls_getSignatureStatuses w + p) = Inr (Some info)"
    and "err info = Some j"
    and "int p * (1000 + 2 * int L) < confirmationTimeout svc"
  shows "\<exists>w1. attempt_once env svc w
                 = (Inl (TransactionFailedError (''Transaction failed: '' @ j) signature), w1)
           \<and> calls_getLatestBlockhash w1 = Suc (calls_getLatestBlockhash w)
           \<and> calls_sendRawTransaction w1 = Suc (calls_sendRawTransaction w)
           \<and> calls_random w1 = calls_random w
           \<and> emitted w1 = emitted w @ [(TRANSACTION_SENT, None, signature),
                 (TRANSACTION_FAILED,
                  Some (TransactionFailedError (''Transaction failed: '' @ j) signature), signature)]"
proof -
  let ?e = "TransactionFailedError (''Transaction failed: '' @ j) signature"
  let ?w3 = "snd (sendRawTransaction env (snd (sign_serialize env (snd (getLatestBlockhash env w)))))"
  let ?w4 = "emit (TRANSACTION_SENT, None, signature) ?w3"
  have st: "calls_getSignatureStatuses ?w4 = calls_getSignatureStatuses w"
    by (simp add: emit_def getLatestBlockhash_def sign_serialize_def sendRawTransaction_def Let_def)
  obtain wr w5 where wt: "waitForConfirmation env svc signature h ?w4 = (wr, w5)"
    by (cases "waitForConfirmation env svc signature h ?w4")
  have a: "\<forall>q<p. inconclusive (getSignatureStatuses_r env (calls_getSignatureStatuses ?w4 + q))"
    unfolding st by (rule assms(5))
  have b: "getSignatureStatuses_r env (calls_getSignatureStatuses ?w4 + p) = Inr (Some info)"
    unfolding st by (rule assms(6))
  have c: "clock ?w4 - clock ?w4 + int p * (1000 + 2 * int L) < confirmationTimeout svc"
    using assms(8) by simp
  have "fst (waitForConfirmation env svc signature h ?w4) = Inl ?e"
    unfolding waitForConfirmation_def
    by (rule wait_rejected_at_poll [OF assms(4) assms(7) a b c])
  with wt have wr: "wr = Inl ?e" by simp
  have fr: "polling_frame ?w4 w5"
    using waitForConfirmation_outcome [OF wt] by simp
  have "attempt_once env svc w = (Inl ?e, emit (TRANSACTION_FAILED, Some ?e, signature) w5)"
    using assms(1-3) wt wr
    by (simp add: attempt_once_def getLatestBlockhash_def sign_serialize_def
        sendRawTransaction_def Let_def)
  moreover have "calls_getLatestBlockhash w5 = Suc (calls_getLatestBlockhash w)"
      "calls_sendRawTransaction w5 = Suc (calls_sendRawTransaction w)"
      "calls_random w5 = calls_random w"
      "emitted w5 = emitted w @ [(TRANSACTION_SENT, None, signature)]"
    using fr
    by (simp_all add: polling_frame_def emit_def getLatestBlockhash_def sign_serialize_def
        sendRawTransaction_def Let_def)
  ultimately show ?thesis
    by (simp add: emit_def)
qed

text \<open>Every turn of the retry loop fetches one blockhash: the fetches count the attempts.\<close>

lemma loop_fetches:
  "nat (retries + 1 - attempt) = n \<Longrightarrow> attempt \<le> retries \<Longrightarrow>
   Suc (calls_getLatestBlockhash w)
     \<le> calls_getLatestBlockhash (snd (sendTransactionWithRetry_loop env svc retries attempt w))"
proof (induction n arbitrary: attempt w)
  case 0
  then show ?case by simp
next
  case (Suc n)
  obtain a w1 where at: "attempt_once env svc w = (a, w1)"
    by (cases "attempt_once env svc w")
  have f: "calls_getLatestBlockhash w1 = Suc (calls_getLatestBlockhash w)"
    using attempt_once_shape [OF at] by simp
  show ?case
  proof (cases a)
    case (Inr x)
    with at Suc.prems(2) f show ?thesis by (simp add: loop_success)
  next
    case (Inl e)
    show ?thesis
    proof (cases "is_fatal e")
      case True
      with at Inl Suc.prems(2) f show ?thesis by (simp add: loop_fatal)
    next
      case False
      show ?thesis
      proof (cases "attempt = retries")
        case True
        with at Inl False f show ?thesis by (simp add: loop_last)
      next
        case ne: False
        with Suc.prems(2) have lt: "attempt < retries" by simp
        have step: "sendTransactionWithRetry_loop env svc retries attempt w
            = sendTransactionWithRetry_loop env svc retries (attempt + 1)
                (backoff_sleep env svc attempt w1)"
          using loop_retry [OF lt _ False] at Inl by simp
        have n: "nat (retries + 1 - (attempt + 1)) = n" using Suc.prems(1) by simp
        have le: "attempt + 1 \<le> retries" using lt by simp
        from Suc.IH [OF n le, of "backoff_sleep env svc attempt w1"] step f
        show ?thesis by (simp add: backoff_sleep_fields)
      qed
    qed
  qed
qed

lemma send_rejection_is_retried:
  assumes "getLatestBlockhash_r env (calls_getLatestBlockhash w) = Inr (blockhash, h)"
    and "sign_serialize_r env (calls_sign w) = Inr ()"
    and "sendRawTransaction_r env (calls_sendRawTransaction w) = Inl e"
    and "\<not> is_fatal e" and "0 < retries"
  shows "calls_getLatestBlockhash w + 2
           \<le> calls_getLatestBlockhash (snd (sendTransactionWithRetry env svc (Some retries) w))"
proof -
  from attempt_once_send_fails [OF assms(1-3), of svc]
  obtain w1 where w1: "attempt_once env svc w = (Inl e, w1)"
      "calls_getLatestBlockhash w1 = Suc (calls_getLatestBlockhash w)"
    by blast
  have step: "sendTransactionWithRetry_loop env svc retries 0 w
      = sendTransactionWithRetry_loop env svc retries (0 + 1) (backoff_sleep env svc 0 w1)"
    using assms(5) w1(1) assms(4) by (rule loop_retry)
  have n: "nat (retries + 1 - (0 + 1)) = nat retries" by simp
  have le: "0 + 1 \<le> retries" using assms(5) by simp
  from loop_fetches [OF n le, of "backoff_sleep env svc 0 w1" env svc] step w1(2)
  show ?thesis
    by (simp add: sendTransactionWithRetry_def backoff_sleep_fields)
qed

lemma fatal_first_attempt:
  assumes "0 \<le> retries" and "attempt_once env svc w = (Inl e, w1)" and "is_fatal e"
  shows "sendTransactionWithRetry env svc (Some retries) w = (Inl e, w1)
         \<and> calls_getLatestBlockhash w1 = Suc (calls_getLatestBlockhash w)
         \<and> calls_sendRawTransaction w1 \<le> Suc (calls_sendRawTransaction w)
         \<and> calls_random w1 = calls_random w"
  using loop_fatal [OF assms] attempt_once_shape [OF assms(2)]
  by (simp add: sendTransactionWithRetry_def)

text \<open>
  C4. What ends a submission after one attempt is a rejection that a status poll reports.
  The first attempt fetches its blockhash, signs and sends; the status polls \<open>0\<close> to
  \<open>p - 1\<close> that follow are inconclusive and poll \<open>p\<close> reports an error, before the
  confirmation timeout (every RPC call of the polling takes at most \<open>L\<close> ms, and \<open>p\<close> turns
  of at most \<open>1000 + 2 L\<close> ms fit in the timeout). Then \<open>sendTransactionWithRetry\<close> throws
  the \<open>TransactionFailedError\<close> of that poll after exactly one attempt, whatever the number
  of retries: one blockhash fetched, one transaction sent, no backoff drawn, and the
  events \<open>TRANSACTION_SENT\<close> and \<open>TRANSACTION_FAILED\<close> emitted.
  A rejection that the send itself throws (preflight is on, \<open>skipPreflight ?? false\<close>) is an
  error of the library and not one of the two classes the \<open>catch\<close> block rethrows: with a
  retry left the submission goes on to a second attempt, and when every send is rejected
  so it sends \<open>retries + 1\<close> times and throws a \<open>BlockchainError\<close>.
\<close>

theorem ledger_rejection_attempts:
  assumes "0 \<le> retries"
    and "getLatestBlockhash_r env (calls_getLatestBlockhash w) = Inr (blockhash, h)"
    and "sign_serialize_r env (calls_sign w) = Inr ()"
  shows "(sendRawTransaction_r env (calls_sendRawTransaction w) = Inr signature
          \<and> (\<forall>k. elapsed env GetSignatureStatuses k \<le> L \<and> elapsed env GetSlot k \<le> L)
          \<and> (\<forall>q<p. inconclusive (getSignatureStatuses_r env (calls_getSignatureStatuses w + q)))
          \<and> getSignatureStatuses_r env (calls_getSignatureStatuses w + p) = Inr (Some info)
          \<and> err info = Some j
          \<and> int p * (1000 + 2 * int L) < confirmationTimeout svc \<longrightarrow>
          (\<exists>w1. sendTransactionWithRetry env svc (Some retries) w
                   = (Inl (TransactionFailedError (''Transaction failed: '' @ j) signature), w1)
             \<and> calls_getLatestBlockhash w1 = Suc (calls_getLatestBlockhash w)
             \<and> calls_sendRawTransaction w1 = Suc (calls_sendRawTransaction w)
             \<and> calls_random w1 = calls_random w
             \<and> emitted w1 = emitted w @ [(TRANSACTION_SENT, None, signature),
                   (TRANSACTION_FAILED,
                    Some (TransactionFailedError (''Transaction failed: '' @ j) signature),
                    signature)]))
       \<and> (sendRawTransaction_r env (calls_sendRawTransaction w) = Inl e
          \<and> \<not> is_fatal e \<and> 0 < retries \<longrightarrow>
            calls_getLatestBlockhash w + 2
              \<le> calls_getLatestBlockhash (snd (sendTransactionWithRetry env svc (Some retries) w)))
       \<and> ((\<forall>k. \<exists>b. getLatestBlockhash_r env k = Inr b)
          \<and> (\<forall>k. sign_serialize_r env k = Inr ())
          \<and> (\<forall>k. sendRawTransaction_r env k = Inl (errs k) \<and> \<not> is_fatal (errs k)) \<longrightarrow>
            (\<exists>w1. sendTransactionWithRetry env svc (Some retries) w
                     = (Inl (BlockchainError (''Failed to send transaction after retries: ''
                               @ message (errs (calls_sendRawTransaction w + nat retries)))), w1)
               \<and> calls_sendRawTransaction w1 = calls_sendRawTransaction w + nat retries + 1
               \<and> calls_getLatestBlockhash w1 = calls_getLatestBlockhash w + nat retries + 1))"
proof (intro conjI impI)
  assume a: "sendRawTransaction_r env (calls_sendRawTransaction w) = Inr signature
      \<and> (\<forall>k. elapsed env GetSignatureStatuses k \<le> L \<and> elapsed env GetSlot k \<le> L)
      \<and> (\<forall>q<p. inconclusive (getSignatureStatuses_r env (calls_getSignatureStatuses w + q)))
      \<and> getSignatureStatuses_r env (calls_getSignatureStatuses w + p) = Inr (Some info)
      \<and> err info = Some j
      \<and> int p * (1000 + 2 * int L) < confirmationTimeout svc"
  let ?e = "TransactionFailedError (''Transaction failed: '' @ j) signature"
  from a have a1: "sendRawTransaction_r env (calls_sendRawTransaction w) = Inr signature"
    and a2: "\<forall>k. elapsed env GetSignatureStatuses k \<le> L \<and> elapsed env GetSlot k \<le> L"
    and a3: "\<forall>q<p. inconclusive (getSignatureStatuses_r env (calls_getSignatureStatuses w + q))"
    and a4: "getSignatureStatuses_r env (calls_getSignatureStatuses w + p) = Inr (Some info)"
    and a5: "err info = Some j"
    and a6: "int p * (1000 + 2 * int L) < confirmationTimeout svc"
    by (rule conjunct1, (rule conjunct2 [THEN conjunct1]),
        (rule conjunct2 [THEN conjunct2, THEN conjunct1]),
        (rule conjunct2 [THEN conjunct2, THEN conjunct2, THEN conjunct1]),
        (rule conjunct2 [THEN conjunct2, THEN conjunct2, THEN conjunct2, THEN conjunct1]),
        (rule conjunct2 [THEN conjunct2, THEN conjunct2, THEN conjunct2, THEN conjunct2]))
  from attempt_rejected_at_poll [OF assms(2,3) a1 a2 a3 a4 a5 a6]
  obtain w1 where w1: "attempt_once env svc w = (Inl ?e, w1)"
      "calls_getLatestBlockhash w1 = Suc (calls_getLatestBlockhash w)"
      "calls_sendRawTransaction w1 = Suc (calls_sendRawTransaction w)"
      "calls_random w1 = calls_random w"
      "emitted w1 = emitted w @ [(TRANSACTION_SENT, None, signature),
                                 (TRANSACTION_FAILED, Some ?e, signature)]"
    by blast
  have "sendTransactionWithRetry env svc (Some retries) w = (Inl ?e, w1)"
    using fatal_first_attempt [OF assms(1) w1(1) rejection_fatal] by simp
  with w1(2-5) show "\<exists>w1. sendTransactionWithRetry env svc (Some retries) w = (Inl ?e, w1)
             \<and> calls_getLatestBlockhash w1 = Suc (calls_getLatestBlockhash w)
             \<and> calls_sendRawTransaction w1 = Suc (calls_sendRawTransaction w)
             \<and> calls_random w1 = calls_random w
             \<and> emitted w1 = emitted w @ [(TRANSACTION_SENT, None, signature),
                   (TRANSACTION_FAILED, Some ?e, signature)]"
    by blast
next
  assume b: "sendRawTransaction_r env (calls_sendRawTransaction w) = Inl e
      \<and> \<not> is_fatal e \<and> 0 < retries"
  then have "sendRawTransaction_r env (calls_sendRawTransaction w) = Inl e"
      "\<not> is_fatal e" "0 < retries"
    by simp_all
  then show "calls_getLatestBlockhash w + 2
      \<le> calls_getLatestBlockhash (snd (sendTransactionWithRetry env svc (Some retries) w))"
    by (rule send_rejection_is_retried [OF assms(2,3)])
next
  assume c: "(\<forall>k. \<exists>b. getLatestBlockhash_r env k = Inr b)
      \<and> (\<forall>k. sign_serialize_r env k = Inr ())
      \<and> (\<forall>k. sendRawTransaction_r env k = Inl (errs k) \<and> \<not> is_fatal (errs k))"
  then have c1: "\<forall>k. \<exists>b. getLatestBlockhash_r env k = Inr b"
    and c2: "\<forall>k. sign_serialize_r env k = Inr ()"
    and c3: "\<forall>k. sendRawTransaction_r env k = Inl (errs k) \<and> \<not> is_fatal (errs k)"
    by (rule conjunct1, rule conjunct2 [THEN conjunct1], rule conjunct2 [THEN conjunct2])
  from submission_send_always_fails [OF c1 c2 c3 assms(1), of svc w]
  show "\<exists>w1. sendTransactionWithRetry env svc (Some retries) w
                 = (Inl (BlockchainError (''Failed to send transaction after retries: ''
                           @ message (errs (calls_sendRawTransaction w + nat retries)))), w1)
           \<and> calls_sendRawTransaction w1 = calls_sendRawTransaction w + nat retries + 1
           \<and> calls_getLatestBlockhash w1 = calls_getLatestBlockhash w + nat retries + 1"
    by blast
qed

lemma rejecting_rpc_scenario:
  "getLatestBlockhash_r rejecting_rpc (calls_getLatestBlockhash initial_world) = Inr (''blockhash'', 1000)"
  "sign_serialize_r rejecting_rpc (calls_sign initial_world) = Inr ()"
  "sendRawTransaction_r rejecting_rpc (calls_sendRawTransaction initial_world) = Inr ''sig''"
  "\<forall>k. elapsed rejecting_rpc GetSignatureStatuses k \<le> 0 \<and> elapsed rejecting_rpc GetSlot k \<le> 0"
  "\<forall>q<1. inconclusive (getSignatureStatuses_r rejecting_rpc (calls_getSignatureStatuses initial_world + q))"
  "getSignatureStatuses_r rejecting_rpc (calls_getSignatureStatuses initial_world + 1)
     = Inr (Some \<lparr> err = Some ''{InstructionError:[0,Custom]}'', confirmationStatus = None \<rparr>)"
  "err \<lparr> err = Some ''{InstructionError:[0,Custom]}'', confirmationStatus = None \<rparr>
     = Some ''{InstructionError:[0,Custom]}''"
  "int 1 * (1000 + 2 * int 0) < confirmationTimeout default_service"
  by (simp_all add: rejecting_rpc_def quiet_rpc_def initial_world_def default_service_def
      inconclusive_def)

lemma preflight_first_attempt:
  "getLatestBlockhash_r preflight_rejecting_rpc (calls_getLatestBlockhash initial_world)
     = Inr (''blockhash'', 1000)"
  "sign_serialize_r preflight_rejecting_rpc (calls_sign initial_world) = Inr ()"
  by (simp_all add: preflight_rejecting_rpc_def quiet_rpc_def initial_world_def)

theorem ledger_rejection_attempts_witness:
  "(\<exists>w1. sendTransactionWithRetry rejecting_rpc default_service (Some 5) initial_world
            = (Inl (TransactionFailedError ''Transaction failed: {InstructionError:[0,Custom]}'' ''sig''), w1)
      \<and> calls_getLatestBlockhash w1 = 1
      \<and> calls_sendRawTransaction w1 = 1
      \<and> calls_random w1 = 0
      \<and> emitted w1 = [(TRANSACTION_SENT, None, ''sig''),
            (TRANSACTION_FAILED,
             Some (TransactionFailedError ''Transaction failed: {InstructionError:[0,Custom]}'' ''sig''),
             ''sig'')])
   \<and> 2 \<le> calls_getLatestBlockhash
            (snd (sendTransactionWithRetry preflight_rejecting_rpc default_service (Some 5) initial_world))
   \<and> (\<exists>w1. sendTransactionWithRetry preflight_rejecting_rpc default_service (Some 5) initial_world
            = (Inl (BlockchainError ''Failed to send transaction after retries: Transaction simulation failed: Error processing Instruction 0: custom program error: 0x1''), w1)
      \<and> calls_sendRawTransaction w1 = 6
      \<and> calls_getLatestBlockhash w1 = 6)"
proof -
  have r: "(0::int) \<le> 5" by simp
  let ?e = "Error ''Transaction simulation failed: Error processing Instruction 0: custom program error: 0x1''"
  note polled = ledger_rejection_attempts [OF r rejecting_rpc_scenario(1,2),
      where signature = "''sig''" and L = 0 and p = 1 and j = "''{InstructionError:[0,Custom]}''"
        and info = "\<lparr> err = Some ''{InstructionError:[0,Custom]}'', confirmationStatus = None \<rparr>"
        and svc = default_service, THEN conjunct1]
  have pre: "sendRawTransaction_r rejecting_rpc (calls_sendRawTransaction initial_world) = Inr ''sig''
      \<and> (\<forall>k. elapsed rejecting_rpc GetSignatureStatuses k \<le> 0 \<and> elapsed rejecting_rpc GetSlot k \<le> 0)
      \<and> (\<forall>q<1. inconclusive (getSignatureStatuses_r rejecting_rpc (calls_getSignatureStatuses initial_world + q)))
      \<and> getSignatureStatuses_r rejecting_rpc (calls_getSignatureStatuses initial_world + 1)
          = Inr (Some \<lparr> err = Some ''{InstructionError:[0,Custom]}'', confirmationStatus = None \<rparr>)
      \<and> err \<lparr> err = Some ''{InstructionError:[0,Custom]}'', confirmationStatus = None \<rparr>
          = Some ''{InstructionError:[0,Custom]}''
      \<and> int 1 * (1000 + 2 * int 0) < confirmationTimeout default_service"
    by (intro conjI rejecting_rpc_scenario(3-8))
  from polled [THEN mp, OF pre]
  have a: "\<exists>w1. sendTransactionWithRetry rejecting_rpc default_service (Some 5) initial_world
            = (Inl (TransactionFailedError ''Transaction failed: {InstructionError:[0,Custom]}'' ''sig''), w1)
      \<and> calls_getLatestBlockhash w1 = 1
      \<and> calls_sendRawTransaction w1 = 1
      \<and> calls_random w1 = 0
      \<and> emitted w1 = [(TRANSACTION_SENT, None, ''sig''),
            (TRANSACTION_FAILED,
             Some (TransactionFailedError ''Transaction failed: {InstructionError:[0,Custom]}'' ''sig''),
             ''sig'')]"
    by (simp add: initial_world_def)
  note sent = ledger_rejection_attempts [OF r preflight_first_attempt,
      where e = ?e and errs = "\<lambda>k. ?e" and svc = default_service, THEN conjunct2]
  have pre2: "sendRawTransaction_r preflight_rejecting_rpc (calls_sendRawTransaction initial_world) = Inl ?e
      \<and> \<not> is_fatal ?e \<and> (0::int) < 5"
    using preflight_rejecting_rpc_scenario(3) by simp
  from sent [THEN conjunct1, THEN mp, OF pre2]
  have b: "2 \<le> calls_getLatestBlockhash
            (snd (sendTransactionWithRetry preflight_rejecting_rpc default_service (Some 5) initial_world))"
    by (simp add: initial_world_def)
  have pre3: "(\<forall>k. \<exists>b. getLatestBlockhash_r preflight_rejecting_rpc k = Inr b)
      \<and> (\<forall>k. sign_serialize_r preflight_rejecting_rpc k = Inr ())
      \<and> (\<forall>k. sendRawTransaction_r preflight_rejecting_rpc k = Inl ?e \<and> \<not> is_fatal ?e)"
    by (intro conjI preflight_rejecting_rpc_scenario)
  from sent [THEN conjunct2, THEN mp, OF pre3]
  have c: "\<exists>w1. sendTransactionWithRetry preflight_rejecting_rpc default_service (Some 5) initial_world
            = (Inl (BlockchainError ''Failed to send transaction after retries: Transaction simulation failed: Error processing Instruction 0: custom program error: 0x1''), w1)
      \<and> calls_sendRawTransaction w1 = 6
      \<and> calls_getLatestBlockhash w1 = 6"
    by (simp add: initial_world_def)
  show ?thesis
    by (rule conjI [OF a conjI [OF b c]])
qed

theorem ledger_rejection_counterexample:
  "sendRawTransaction_r preflight_rejecting_rpc 0
     = Inl (Error ''Transaction simulation failed: Error processing Instruction 0: custom program error: 0x1'')
   \<and> fst (sendTransactionWithRetry preflight_rejecting_rpc default_service (Some 5) initial_world)
       = Inl (BlockchainError ''Failed to send transaction after retries: Transaction simulation failed: Error processing Instruction 0: custom program error: 0x1'')
   \<and> calls_getLatestBlockhash
       (snd (sendTransactionWithRetry preflight_rejecting_rpc default_service (Some 5) initial_world)) = 6
   \<and> calls_sendRawTransaction
       (snd (sendTransactionWithRetry preflight_rejecting_rpc default_service (Some 5) initial_world)) = 6"
proof -
  have r: "(0::int) \<le> 5" by simp
  have a: "sendRawTransaction_r preflight_rejecting_rpc 0
     = Inl (Error ''Transaction simulation failed: Error processing Instruction 0: custom program error: 0x1'')"
    using preflight_rejecting_rpc_scenario(3) by simp
  from submission_send_always_fails [OF preflight_rejecting_rpc_scenario r,
      of default_service initial_world]
  have b: "fst (sendTransactionWithRetry preflight_rejecting_rpc default_service (Some 5) initial_world)
       = Inl (BlockchainError ''Failed to send transaction after retries: Transaction simulation failed: Error processing Instruction 0: custom program error: 0x1'')
   \<and> calls_getLatestBlockhash
       (snd (sendTransactionWithRetry preflight_rejecting_rpc default_service (Some 5) initial_world)) = 6
   \<and> calls_sendRawTransaction
       (snd (sendTransactionWithRetry preflight_rejecting_rpc default_service (Some 5) initial_world)) = 6"
    by (auto simp: initial_world_def)
  from a b show ?thesis by (rule conjI)
qed

section \<open>Exhaustion, delays and timeouts\<close>

text \<open>
  C2, as the code has it. When every invocation fails, \<open>withRetry\<close> with a bound of at
  least 1 invokes the operation exactly that many times and rethrows the last error
  itself, not wrapped. When every send fails with an error that is neither a
  \<open>TransactionFailedError\<close> nor a \<open>TransactionTimeoutError\<close>, \<open>sendTransactionWithRetry\<close>
  with \<open>retries\<close> at least 0 makes exactly \<open>retries + 1\<close> attempts and throws a
  \<open>BlockchainError\<close> whose message is a fixed prefix followed by the message of the last
  error. Neither error carries an attempt count.
\<close>

theorem retry_exhaustion:
  assumes "\<forall>k. operation k = Inl (op_errs k)" and "1 \<le> maxR"
    and "\<forall>k. \<exists>b. getLatestBlockhash_r env k = Inr b"
    and "\<forall>k. sign_serialize_r env k = Inr ()"
    and "\<forall>k. sendRawTransaction_r env k = Inl (errs k) \<and> \<not> is_fatal (errs k)"
    and "0 \<le> retries"
  shows "fst (withRetry operation maxR d) = Inl (op_errs (nat maxR - 1))
       \<and> invocations (snd (withRetry operation maxR d)) = nat maxR
       \<and> fst (sendTransactionWithRetry env svc (Some retries) w)
           = Inl (BlockchainError (''Failed to send transaction after retries: ''
                    @ message (errs (calls_sendRawTransaction w + nat retries))))
       \<and> calls_sendRawTransaction (snd (sendTransactionWithRetry env svc (Some retries) w))
           = calls_sendRawTransaction w + nat retries + 1
       \<and> calls_getLatestBlockhash (snd (sendTransactionWithRetry env svc (Some retries) w))
           = calls_getLatestBlockhash w + nat retries + 1"
proof -
  have a: "withRetry operation maxR d =
       (Inl (op_errs (nat maxR - 1)),
        \<lparr> invocations = nat maxR, slept = map (\<lambda>i. d * 2 ^ i) [0..<nat maxR - 1] \<rparr>)"
    using assms(1,2) by (rule withRetry_always_fails)
  from submission_send_always_fails [OF assms(3-6), of svc w]
  obtain w' where "sendTransactionWithRetry env svc (Some retries) w =
            (Inl (BlockchainError (''Failed to send transaction after retries: ''
                    @ message (errs (calls_sendRawTransaction w + nat retries)))), w')"
       "calls_sendRawTransaction w' = calls_sendRawTransaction w + nat retries + 1"
       "calls_getLatestBlockhash w' = calls_getLatestBlockhash w + nat retries + 1"
    by blast
  with a show ?thesis by simp
qed

theorem retry_exhaustion_witness:
  "fst (withRetry flaky_operation 5 1000) = Inl (Error ''ECONNRESET'')
   \<and> invocations (snd (withRetry flaky_operation 5 1000)) = 5
   \<and> fst (sendTransactionWithRetry send_down_rpc default_service (Some 5) initial_world)
       = Inl (BlockchainError ''Failed to send transaction after retries: ETIMEDOUT'')
   \<and> calls_sendRawTransaction (snd (sendTransactionWithRetry send_down_rpc default_service (Some 5) initial_world)) = 6
   \<and> calls_getLatestBlockhash (snd (sendTransactionWithRetry send_down_rpc default_service (Some 5) initial_world)) = 6"
proof -
  have o: "\<forall>k. flaky_operation k = Inl (Error (network_errors ! (k mod 4)))"
    by (simp add: flaky_operation_def)
  have m: "(1::int) \<le> 5" and r: "(0::int) \<le> 5" by simp_all
  from retry_exhaustion [OF o m send_down_rpc_scenario r, of 1000 default_service initial_world]
  show ?thesis
    by (simp add: network_errors_def initial_world_def)
qed

theorem retry_exhaustion_counterexample:
  "withRetry flaky_operation 3 1000
     = (Inl (Error ''EPIPE''), \<lparr> invocations = 3, slept = [1000, 2000] \<rparr>)
   \<and> flaky_operation 2 = Inl (Error ''EPIPE'')
   \<and> fst (sendTransactionWithRetry send_down_rpc default_service (Some 3) initial_world)
       = Inl (BlockchainError ''Failed to send transaction after retries: EAI_AGAIN'')
   \<and> calls_sendRawTransaction (snd (sendTransactionWithRetry send_down_rpc default_service (Some 3) initial_world)) = 4"
proof -
  have o: "\<forall>k. flaky_operation k = Inl (Error (network_errors ! (k mod 4)))"
    by (simp add: flaky_operation_def)
  have m: "(1::int) \<le> 3" and r: "(0::int) \<le> 3" by simp_all
  have up: "[0..<2] = [0, Suc 0]" by (simp add: upt_rec)
  have a: "withRetry flaky_operation 3 1000
     = (Inl (Error ''EPIPE''), \<lparr> invocations = 3, slept = [1000, 2000] \<rparr>)"
    using withRetry_always_fails [OF o m, of 1000]
    by (simp add: network_errors_def up)
  have b: "flaky_operation 2 = Inl (Error ''EPIPE'')"
    by (simp add: flaky_operation_def network_errors_def)
  from submission_send_always_fails [OF send_down_rpc_scenario r, of default_service initial_world]
  have c: "fst (sendTransactionWithRetry send_down_rpc default_service (Some 3) initial_world)
       = Inl (BlockchainError ''Failed to send transaction after retries: EAI_AGAIN'')
   \<and> calls_sendRawTransaction (snd (sendTransactionWithRetry send_down_rpc default_service (Some 3) initial_world)) = 4"
    by (auto simp: network_errors_def initial_world_def)
  from a b c show ?thesis by simp
qed

text \<open>
  C7, as the code has it. In \<open>withRetry\<close> the delay after the n-th failed attempt
  (n from 1) is \<open>initialDelayMs * 2^(n-1)\<close>, with no jitter and no cap. In
  \<open>sendTransactionWithRetry\<close> it is \<open>retryDelay * 2^(n-1)\<close> plus a jitter that is an integer
  from 0 to 499, whatever the delay is, again with no cap.
\<close>

theorem backoff_delays:
  assumes "\<forall>k. operation k = Inl (op_errs k)" and "1 \<le> maxR"
    and "\<forall>k. \<exists>b. getLatestBlockhash_r env k = Inr b"
    and "\<forall>k. sign_serialize_r env k = Inr ()"
    and "\<forall>k. sendRawTransaction_r env k = Inl (errs k) \<and> \<not> is_fatal (errs k)"
    and "0 \<le> retries"
  shows "slept (snd (withRetry operation maxR d)) = map (\<lambda>i. d * 2 ^ i) [0..<nat maxR - 1]
       \<and> sleeps (snd (sendTransactionWithRetry env svc (Some retries) w))
           = sleeps w @ map (\<lambda>i. retryDelay svc * 2 ^ i
                                 + int (Math_random_r env (calls_random w + i) mod 500))
                            [0..<nat retries]
       \<and> 0 \<le> int (Math_random_r env k mod 500) \<and> int (Math_random_r env k mod 500) \<le> 499"
proof -
  have a: "withRetry operation maxR d =
       (Inl (op_errs (nat maxR - 1)),
        \<lparr> invocations = nat maxR, slept = map (\<lambda>i. d * 2 ^ i) [0..<nat maxR - 1] \<rparr>)"
    using assms(1,2) by (rule withRetry_always_fails)
  from submission_send_always_fails [OF assms(3-6), of svc w]
  obtain w' where "sendTransactionWithRetry env svc (Some retries) w =
            (Inl (BlockchainError (''Failed to send transaction after retries: ''
                    @ message (errs (calls_sendRawTransaction w + nat retries)))), w')"
       "sleeps w' = sleeps w @ map (\<lambda>i. retryDelay svc * 2 ^ i
                                          + int (Math_random_r env (calls_random w + i) mod 500))
                                     [0..<nat retries]"
    by blast
  moreover have "Math_random_r env k mod 500 < 500" by simp
  then have "int (Math_random_r env k mod 500) \<le> 499" by linarith
  ultimately show ?thesis using a by simp
qed

theorem backoff_delays_witness:
  "slept (snd (withRetry flaky_operation 4 1000)) = [1000, 2000, 4000]
   \<and> sleeps (snd (sendTransactionWithRetry send_down_rpc default_service (Some 3) initial_world))
       = [1123, 2130, 4137]"
proof -
  have o: "\<forall>k. flaky_operation k = Inl (Error (network_errors ! (k mod 4)))"
    by (simp add: flaky_operation_def)
  have m: "(1::int) \<le> 4" and r: "(0::int) \<le> 3" by simp_all
  have up: "[0..<3] = [0, Suc 0, Suc (Suc 0)]" by (simp add: upt_rec)
  from backoff_delays [OF o m send_down_rpc_scenario r, of 1000 default_service initial_world]
  show ?thesis
    by (simp add: up initial_world_def default_service_def send_down_rpc_def quiet_rpc_def)
qed

lemma withRetry_delays_unbounded:
  "\<exists>n. \<exists>x \<in> set (slept (snd (withRetry flaky_operation (int n) 1000))). cap < x"
proof -
  let ?n = "nat cap + 2"
  have o: "\<forall>k. flaky_operation k = Inl (Error (network_errors ! (k mod 4)))"
    by (simp add: flaky_operation_def)
  have m: "1 \<le> int ?n" by simp
  have e: "nat (int ?n) - 1 = Suc (nat cap)"
    by (simp only: nat_int)
  from withRetry_always_fails [OF o m, of 1000]
  have "slept (snd (withRetry flaky_operation (int ?n) 1000))
      = map (\<lambda>i. 1000 * 2 ^ i) [0..<nat (int ?n) - 1]"
    by (simp only: snd_conv retry_log.select_convs)
  then have s: "slept (snd (withRetry flaky_operation (int ?n) 1000))
      = map (\<lambda>i. 1000 * 2 ^ i) [0..<Suc (nat cap)]"
    unfolding e .
  have "(1000::int) * 2 ^ nat cap \<in> set (map (\<lambda>i. 1000 * 2 ^ i) [0..<Suc (nat cap)])"
    by auto
  moreover have "cap < (1000::int) * 2 ^ nat cap"
  proof -
    have "nat cap < 2 ^ nat cap" by (rule less_exp)
    then have "int (nat cap) < int (2 ^ nat cap)" by (simp only: of_nat_less_iff)
    then have "int (nat cap) < 2 ^ nat cap" by simp
    then have "cap < 2 ^ nat cap" by linarith
    moreover have "(2::int) ^ nat cap \<le> 1000 * 2 ^ nat cap" by simp
    ultimately show ?thesis by linarith
  qed
  ultimately show ?thesis
    using s by metis
qed

theorem backoff_delays_counterexample:
  "\<not> (\<exists>cap. \<forall>n. \<forall>x \<in> set (slept (snd (withRetry flaky_operation (int n) 1000))). x \<le> cap)"
proof
  assume "\<exists>cap. \<forall>n. \<forall>x \<in> set (slept (snd (withRetry flaky_operation (int n) 1000))). x \<le> cap"
  then obtain cap where c: "\<forall>n. \<forall>x \<in> set (slept (snd (withRetry flaky_operation (int n) 1000))). x \<le> cap"
    by blast
  from withRetry_delays_unbounded [of cap] obtain n x where
    "x \<in> set (slept (snd (withRetry flaky_operation (int n) 1000)))" "cap < x"
    by blast
  with c show False by force
qed




section \<open>Lifecycle events\<close>

lemma sendTransactionWithRetry_lifecycle:
  "lifecycle (emitted w) (fst (sendTransactionWithRetry env svc opt_retries w))
     (emitted (snd (sendTransactionWithRetry env svc opt_retries w)))"
proof -
  obtain r w' where rw: "sendTransactionWithRetry env svc opt_retries w = (r, w')"
    by (cases "sendTransactionWithRetry env svc opt_retries w")
  then have "sendTransactionWithRetry_loop env svc
       (case opt_retries of None \<Rightarrow> maxRetries svc | Some r \<Rightarrow> r) 0 w = (r, w')"
    by (simp add: sendTransactionWithRetry_def)
  from loop_lifecycle [OF refl this] rw show ?thesis by simp
qed

text \<open>
  C8, as the code has it. The events that one call of \<open>sendTransactionWithRetry\<close> emits
  are either none, and then the call throws, or \<open>TRANSACTION_SENT\<close> followed by exactly
  one terminal event for the same signature: \<open>TRANSACTION_CONFIRMED\<close> when the call
  returns that signature, \<open>TRANSACTION_FAILED\<close> carrying the error the call throws. No
  terminal event comes before \<open>TRANSACTION_SENT\<close>. When every send fails, the call emits
  no event at all and throws after \<open>retries + 1\<close> sends.
\<close>

theorem lifecycle_events:
  "lifecycle (emitted w) (fst (sendTransactionWithRetry env svc opt_retries w))
     (emitted (snd (sendTransactionWithRetry env svc opt_retries w)))
   \<and> ((\<forall>k. \<exists>b. getLatestBlockhash_r env k = Inr b)
        \<and> (\<forall>k. sign_serialize_r env k = Inr ())
        \<and> (\<forall>k. sendRawTransaction_r env k = Inl (errs k) \<and> \<not> is_fatal (errs k))
        \<and> 0 \<le> retries \<longrightarrow>
       emitted (snd (sendTransactionWithRetry env svc (Some retries) w)) = emitted w
       \<and> isl (fst (sendTransactionWithRetry env svc (Some retries) w))
       \<and> calls_sendRawTransaction (snd (sendTransactionWithRetry env svc (Some retries) w))
           = calls_sendRawTransaction w + nat retries + 1)"
proof -
  have b: "emitted (snd (sendTransactionWithRetry env svc (Some retries) w)) = emitted w
       \<and> isl (fst (sendTransactionWithRetry env svc (Some retries) w))
       \<and> calls_sendRawTransaction (snd (sendTransactionWithRetry env svc (Some retries) w))
           = calls_sendRawTransaction w + nat retries + 1"
    if h: "\<forall>k. \<exists>b. getLatestBlockhash_r env k = Inr b" "\<forall>k. sign_serialize_r env k = Inr ()"
      "\<forall>k. sendRawTransaction_r env k = Inl (errs k) \<and> \<not> is_fatal (errs k)" "0 \<le> retries"
  proof -
    from submission_send_always_fails [OF h, of svc w]
    obtain w' where "sendTransactionWithRetry env svc (Some retries) w =
            (Inl (BlockchainError (''Failed to send transaction after retries: ''
                    @ message (errs (calls_sendRawTransaction w + nat retries)))), w')"
       "calls_sendRawTransaction w' = calls_sendRawTransaction w + nat retries + 1"
       "emitted w' = emitted w"
      by blast
    then show ?thesis by simp
  qed
  show ?thesis
    using sendTransactionWithRetry_lifecycle [of w env svc opt_retries] b by blast
qed

theorem lifecycle_events_witness:
  "lifecycle [] (fst (sendTransactionWithRetry rejecting_rpc default_service None initial_world))
     (emitted (snd (sendTransactionWithRetry rejecting_rpc default_service None initial_world)))
   \<and> emitted (snd (sendTransactionWithRetry send_down_rpc default_service (Some 4) initial_world)) = []
   \<and> isl (fst (sendTransactionWithRetry send_down_rpc default_service (Some 4) initial_world))
   \<and> calls_sendRawTransaction (snd (sendTransactionWithRetry send_down_rpc default_service (Some 4) initial_world)) = 5"
proof -
  have r: "(0::int) \<le> 4" by simp
  have a: "lifecycle [] (fst (sendTransactionWithRetry rejecting_rpc default_service None initial_world))
     (emitted (snd (sendTransactionWithRetry rejecting_rpc default_service None initial_world)))"
    using lifecycle_events [where w = initial_world and env = rejecting_rpc
        and svc = default_service and opt_retries = None]
    by (simp add: initial_world_def)
  have b: "emitted (snd (sendTransactionWithRetry send_down_rpc default_service (Some 4) initial_world)) = []
   \<and> isl (fst (sendTransactionWithRetry send_down_rpc default_service (Some 4) initial_world))
   \<and> calls_sendRawTransaction (snd (sendTransactionWithRetry send_down_rpc default_service (Some 4) initial_world)) = 5"
    using lifecycle_events [where w = initial_world and env = send_down_rpc
        and svc = default_service and retries = 4
        and errs = "\<lambda>k. Error (network_errors ! (k mod 4))"]
      send_down_rpc_scenario r
    by (simp add: initial_world_def)
  from a b show ?thesis by simp
qed

theorem lifecycle_events_counterexample:
  "emitted (snd (sendTransactionWithRetry send_down_rpc default_service (Some 2) initial_world)) = []
   \<and> calls_sendRawTransaction (snd (sendTransactionWithRetry send_down_rpc default_service (Some 2) initial_world)) = 3
   \<and> fst (sendTransactionWithRetry send_down_rpc default_service (Some 2) initial_world)
       = Inl (BlockchainError ''Failed to send transaction after retries: EPIPE'')"
proof -
  have r: "(0::int) \<le> 2" by simp
  from submission_send_always_fails [OF send_down_rpc_scenario r, of default_service initial_world]
  show ?thesis
    by (auto simp: network_errors_def initial_world_def)
qed

section \<open>Attestation verification\<close>

lemma verifyAttestation_returns:
  "\<exists>res w1. verifyAttestation env rt svc a w = (Inr res, w1) \<and> sleeps w1 = sleeps w"
proof -
  have b: "sleeps (snd (verifyAttestation_body env rt svc a w)) = sleeps w"
    by (auto simp: verifyAttestation_body_def getAccountInfo_def Let_def
        split: sum.splits option.splits)
  obtain r w1 where rw: "verifyAttestation_body env rt svc a w = (r, w1)"
    by (cases "verifyAttestation_body env rt svc a w")
  with b have "sleeps w1 = sleeps w" by simp
  with rw show ?thesis
    by (cases r) (simp_all add: verifyAttestation_def)
qed

lemma verify_member_returns:
  "\<exists>res w1. verify_member env rt svc a w = (Inr (a, res), w1) \<and> sleeps w1 = sleeps w
      \<and> fst (verifyAttestation env rt svc a w) = Inr res"
proof -
  from verifyAttestation_returns [of env rt svc a w]
  obtain res w1 where "verifyAttestation env rt svc a w = (Inr res, w1)" "sleeps w1 = sleeps w"
    by blast
  then show ?thesis
    by (simp add: verify_member_def)
qed

lemma promise_all_members_returns:
  "\<exists>xs w1. promise_all_members env rt svc batch w = (Inr xs, w1)
      \<and> map fst xs = batch \<and> sleeps w1 = sleeps w
      \<and> (\<forall>(a, r) \<in> set xs. verified env rt svc a r)"
proof (induction batch arbitrary: w)
  case Nil
  show ?case by simp
next
  case (Cons a rest)
  from verify_member_returns [of env rt svc a w]
  obtain res w1 where m: "verify_member env rt svc a w = (Inr (a, res), w1)"
      "sleeps w1 = sleeps w" "fst (verifyAttestation env rt svc a w) = Inr res"
    by blast
  from Cons.IH [of w1]
  obtain xs w2 where r: "promise_all_members env rt svc rest w1 = (Inr xs, w2)"
      "map fst xs = rest" "sleeps w2 = sleeps w1" "\<forall>(a, r) \<in> set xs. verified env rt svc a r"
    by blast
  have "verified env rt svc a res"
    using m(3) by (auto simp: verified_def)
  with m r show ?case by simp
qed

lemma store_results_dom:
  "dom (own_properties (store_results m xs))
     = dom (own_properties m) \<union> (fst ` set xs - {''__proto__''})"
proof (induction xs arbitrary: m)
  case Nil
  show ?case by simp
next
  case (Cons x xs)
  obtain addr res where x: "x = (addr, res)" by (cases x)
  have "dom (own_properties (set_property m addr res))
      = dom (own_properties m) \<union> ({addr} - {''__proto__''})"
    by (simp add: set_property_def)
  then show ?case
    unfolding x store_results.simps Cons.IH by auto
qed

lemma store_results_entry:
  "own_properties (store_results m xs) a = Some r
     \<Longrightarrow> own_properties m a = Some r \<or> (a, r) \<in> set xs"
proof (induction xs arbitrary: m)
  case Nil
  then show ?case by simp
next
  case (Cons x xs)
  obtain addr res where x: "x = (addr, res)" by (cases x)
  with Cons.prems have "own_properties (store_results (set_property m addr res) xs) a = Some r"
    by simp
  from Cons.IH [OF this]
  have "own_properties (set_property m addr res) a = Some r \<or> (a, r) \<in> set xs" .
  then show ?case
    using x by (cases "a = addr") (auto simp: set_property_def split: if_splits)
qed

lemma pauses_step:
  "i + 10 < n \<Longrightarrow> (n - i - 1) div 10 = Suc ((n - (i + 10) - 1) div 10)"
  for i n :: nat
proof -
  assume "i + 10 < n"
  then obtain k where n: "n = Suc (i + 10 + k)"
    using less_imp_Suc_add by blast
  have a: "n - i - 1 = k + 10" using n by simp
  have b: "n - (i + 10) - 1 = k" using n by simp
  show ?thesis unfolding a b by simp
qed

lemma batch_loop_returns:
  "\<exists>m' w'. batch_loop env rt svc addrs i m w = (Inr m', w')
      \<and> dom (own_properties m')
          = dom (own_properties m) \<union> (set (drop i addrs) - {''__proto__''})
      \<and> sleeps w' = sleeps w @ replicate ((length addrs - i - 1) div 10) 500
      \<and> (\<forall>a r. own_properties m' a = Some r \<longrightarrow>
             own_properties m a = Some r \<or> (a \<in> set addrs \<and> verified env rt svc a r))"
proof (induction env rt svc addrs i m w rule: batch_loop.induct)
  case (1 env rt svc addrs i m w)
  show ?case
  proof (cases "i < length addrs")
    case False
    then show ?thesis
      by (subst batch_loop.simps) simp
  next
    case True
    let ?batch = "take BATCH_SIZE (drop i addrs)"
    from promise_all_members_returns [of env rt svc ?batch w]
    obtain xs w1 where p: "promise_all_members env rt svc ?batch w = (Inr xs, w1)"
        "map fst xs = ?batch" "sleeps w1 = sleeps w" "\<forall>(a, r) \<in> set xs. verified env rt svc a r"
      by blast
    let ?w2 = "if i + BATCH_SIZE < length addrs then sleep 500 w1 else w1"
    let ?m2 = "store_results m xs"
    have step: "batch_loop env rt svc addrs i m w
        = batch_loop env rt svc addrs (i + BATCH_SIZE) ?m2 ?w2"
      using True p(1) by (subst batch_loop.simps) (simp add: Let_def)
    from "1.IH" [OF True refl p(1) [symmetric] refl]
    obtain m' w' where ih: "batch_loop env rt svc addrs (i + BATCH_SIZE) ?m2 ?w2 = (Inr m', w')"
        "dom (own_properties m')
           = dom (own_properties ?m2) \<union> (set (drop (i + BATCH_SIZE) addrs) - {''__proto__''})"
        "sleeps w' = sleeps ?w2 @ replicate ((length addrs - (i + BATCH_SIZE) - 1) div 10) 500"
        "\<forall>a r. own_properties m' a = Some r \<longrightarrow>
           own_properties ?m2 a = Some r \<or> (a \<in> set addrs \<and> verified env rt svc a r)"
      by blast
    have fs: "fst ` set xs = set ?batch"
      using p(2) by (metis set_map)
    have "take BATCH_SIZE (drop i addrs) @ drop BATCH_SIZE (drop i addrs) = drop i addrs"
      by (rule append_take_drop_id)
    moreover have "drop BATCH_SIZE (drop i addrs) = drop (i + BATCH_SIZE) addrs"
      by (simp add: add.commute)
    ultimately have "drop i addrs = ?batch @ drop (i + BATCH_SIZE) addrs"
      by simp
    then have "set (drop i addrs) = set ?batch \<union> set (drop (i + BATCH_SIZE) addrs)"
      by (metis set_append)
    then have d: "dom (own_properties m')
        = dom (own_properties m) \<union> (set (drop i addrs) - {''__proto__''})"
      unfolding ih(2) store_results_dom fs by blast
    have s: "sleeps w' = sleeps w @ replicate ((length addrs - i - 1) div 10) 500"
    proof (cases "i + 10 < length addrs")
      case True
      then show ?thesis
        using ih(3) p(3) pauses_step [OF True]
        by (simp add: BATCH_SIZE_def sleep_def)
    next
      case False
      then show ?thesis
        using ih(3) p(3) by (simp add: BATCH_SIZE_def)
    qed
    have e: "own_properties m a = Some r \<or> (a \<in> set addrs \<and> verified env rt svc a r)"
      if "own_properties m' a = Some r" for a r
    proof -
      from ih(4) that
      have "own_properties ?m2 a = Some r \<or> (a \<in> set addrs \<and> verified env rt svc a r)"
        by blast
      then show ?thesis
      proof
        assume "own_properties ?m2 a = Some r"
        then have "own_properties m a = Some r \<or> (a, r) \<in> set xs"
          by (rule store_results_entry)
        moreover have "a \<in> set addrs \<and> verified env rt svc a r" if "(a, r) \<in> set xs"
        proof -
          from that have "a \<in> fst ` set xs" by force
          with fs have "a \<in> set ?batch" by simp
          then have "a \<in> set addrs" by (meson in_set_dropD in_set_takeD)
          moreover from that p(4) have "verified env rt svc a r" by auto
          ultimately show ?thesis by simp
        qed
        ultimately show ?thesis by blast
      next
        assume "a \<in> set addrs \<and> verified env rt svc a r"
        then show ?thesis by simp
      qed
    qed
    have e': "\<forall>a r. own_properties m' a = Some r \<longrightarrow>
        own_properties m a = Some r \<or> (a \<in> set addrs \<and> verified env rt svc a r)"
      using e by blast
    have "batch_loop env rt svc addrs i m w = (Inr m', w')"
      using step ih(1) by simp
    with d s e' show ?thesis by blast
  qed
qed

lemma batchVerifyAttestations_returns:
  "\<exists>m w'. batchVerifyAttestations env rt svc addrs w = (Inr m, w')
      \<and> dom (own_properties m) = set addrs - {''__proto__''}
      \<and> sleeps w' = sleeps w @ replicate ((length addrs - 1) div BATCH_SIZE) 500
      \<and> (\<forall>a r. own_properties m a = Some r \<longrightarrow> verified env rt svc a r)"
  using batch_loop_returns [of env rt svc addrs 0 empty_object w]
  by (auto simp: batchVerifyAttestations_def BATCH_SIZE_def empty_object_def)

lemma chunks_of_concat: "0 < n \<Longrightarrow> concat (chunks_of n xs) = xs"
proof (induction n xs rule: chunks_of.induct)
  case (1 n xs)
  show ?case
  proof (cases "xs = []")
    case True
    then show ?thesis by (subst chunks_of.simps) simp
  next
    case False
    with "1.prems" have "concat (chunks_of n (drop n xs)) = drop n xs"
      using "1.IH" by simp
    with False "1.prems" show ?thesis
      by (subst chunks_of.simps) simp
  qed
qed

lemma chunks_of_sizes: "c \<in> set (chunks_of n xs) \<Longrightarrow> c \<noteq> [] \<and> length c \<le> n"
proof (induction n xs rule: chunks_of.induct)
  case (1 n xs)
  show ?case
  proof (cases "xs = [] \<or> n = 0")
    case True
    with "1.prems" show ?thesis
      by (subst (asm) chunks_of.simps) simp
  next
    case False
    with "1.prems" have "c = take n xs \<or> c \<in> set (chunks_of n (drop n xs))"
      by (subst (asm) chunks_of.simps) simp
    then show ?thesis
    proof
      assume "c = take n xs"
      with False show ?thesis by simp
    next
      assume "c \<in> set (chunks_of n (drop n xs))"
      with False "1.IH" show ?thesis by simp
    qed
  qed
qed

lemma chunks_of_empty_iff: "0 < n \<Longrightarrow> chunks_of n xs = [] \<longleftrightarrow> xs = []"
  by (subst chunks_of.simps) simp

lemma batch_loop_run_chunks:
  "batch_loop env rt svc addrs i m w
     = run_chunks env rt svc (chunks_of BATCH_SIZE (drop i addrs)) m w"
proof (induction env rt svc addrs i m w rule: batch_loop.induct)
  case (1 env rt svc addrs i m w)
  show ?case
  proof (cases "i < length addrs")
    case False
    then have "chunks_of BATCH_SIZE (drop i addrs) = []"
      by (subst chunks_of.simps) simp
    with False show ?thesis
      by (subst batch_loop.simps) simp
  next
    case True
    let ?batch = "take BATCH_SIZE (drop i addrs)"
    have ne: "drop i addrs \<noteq> []" using True by simp
    have dd: "drop BATCH_SIZE (drop i addrs) = drop (i + BATCH_SIZE) addrs"
      by (simp add: add.commute)
    have ch: "chunks_of BATCH_SIZE (drop i addrs)
        = ?batch # chunks_of BATCH_SIZE (drop (i + BATCH_SIZE) addrs)"
      using ne dd by (subst chunks_of.simps) (simp add: BATCH_SIZE_def)
    have more: "chunks_of BATCH_SIZE (drop (i + BATCH_SIZE) addrs) \<noteq> []
        \<longleftrightarrow> i + BATCH_SIZE < length addrs"
      by (simp add: chunks_of_empty_iff BATCH_SIZE_def not_le)
    obtain r w1 where p: "promise_all_members env rt svc ?batch w = (r, w1)"
      by (cases "promise_all_members env rt svc ?batch w")
    show ?thesis
    proof (cases r)
      case (Inl e)
      with True p show ?thesis
        unfolding ch by (subst batch_loop.simps) (simp add: Let_def)
    next
      case (Inr xs)
      have "batch_loop env rt svc addrs i m w
          = batch_loop env rt svc addrs (i + BATCH_SIZE) (store_results m xs)
              (if i + BATCH_SIZE < length addrs then sleep 500 w1 else w1)"
        using True p Inr by (subst batch_loop.simps) (simp add: Let_def)
      also have "\<dots> = run_chunks env rt svc (chunks_of BATCH_SIZE (drop (i + BATCH_SIZE) addrs))
              (store_results m xs) (if i + BATCH_SIZE < length addrs then sleep 500 w1 else w1)"
        using "1.IH" [OF True refl p [symmetric] Inr] by simp
      finally show ?thesis
        unfolding ch using p Inr more by simp
    qed
  qed
qed

lemma batchVerifyAttestations_chunked:
  "batchVerifyAttestations env rt svc addrs w
     = run_chunks env rt svc (chunks_of BATCH_SIZE addrs) empty_object w"
  using batch_loop_run_chunks [of env rt svc addrs 0 empty_object w]
  by (simp add: batchVerifyAttestations_def)

text \<open>
  C5. For a well-formed address, \<open>verifyAttestation\<close> tells absence from forgery: when
  the account lookup finds nothing the result is invalid with the reason "Attestation
  account not found"; when it finds an account whose owner is not the configured program
  the result is invalid with the reason "Attestation account is not owned by expected
  program", which is not the not-found result.
\<close>

theorem verifyAttestation_absent_or_wrong_owner:
  assumes "attestationAddress \<noteq> []"
    and "new_PublicKey rt attestationAddress = Inr pubKey"
  shows "(getAccountInfo_r env (calls_getAccountInfo w) pubKey = Inr None \<longrightarrow>
            fst (verifyAttestation env rt svc attestationAddress w)
              = Inr (invalid ''Attestation account not found''))
       \<and> (\<forall>accountInfo.
            getAccountInfo_r env (calls_getAccountInfo w) pubKey = Inr (Some accountInfo)
            \<and> owner accountInfo \<noteq> programId svc \<longrightarrow>
              fst (verifyAttestation env rt svc attestationAddress w)
                = Inr (invalid ''Attestation account is not owned by expected program'')
              \<and> fst (verifyAttestation env rt svc attestationAddress w)
                \<noteq> Inr (invalid ''Attestation account not found''))"
  using assms
  by (simp add: verifyAttestation_def verifyAttestation_body_def getAccountInfo_def Let_def
      invalid_def)

lemma toy_keys:
  "new_PublicKey toy_runtime ''none'' = Inr (toy_key ''none'')"
  "new_PublicKey toy_runtime ''evil'' = Inr (toy_key ''evil'')"
  "getAccountInfo_r toy_ledger 0 (toy_key ''none'') = Inr None"
  "getAccountInfo_r toy_ledger 0 (toy_key ''evil'')
     = Inr (Some \<lparr> owner = toy_key ''mine'', acc_data = ''{good}'' \<rparr>)"
  "toy_key ''mine'' \<noteq> programId toy_service"
  by code_simp+

theorem verifyAttestation_absent_or_wrong_owner_witness:
  "fst (verifyAttestation toy_ledger toy_runtime toy_service ''none'' initial_world)
     = Inr (invalid ''Attestation account not found'')
   \<and> fst (verifyAttestation toy_ledger toy_runtime toy_service ''evil'' initial_world)
     = Inr (invalid ''Attestation account is not owned by expected program'')
   \<and> fst (verifyAttestation toy_ledger toy_runtime toy_service ''evil'' initial_world)
     \<noteq> Inr (invalid ''Attestation account not found'')"
proof -
  have n: "''none'' \<noteq> []" and e: "''evil'' \<noteq> []" by simp_all
  have c: "calls_getAccountInfo initial_world = 0" by (simp add: initial_world_def)
  have a: "fst (verifyAttestation toy_ledger toy_runtime toy_service ''none'' initial_world)
     = Inr (invalid ''Attestation account not found'')"
    using verifyAttestation_absent_or_wrong_owner [OF n toy_keys(1), of toy_ledger initial_world toy_service]
      toy_keys(3) c
    by simp
  have imp: "\<forall>accountInfo.
            getAccountInfo_r toy_ledger (calls_getAccountInfo initial_world) (toy_key ''evil'')
              = Inr (Some accountInfo)
            \<and> owner accountInfo \<noteq> programId toy_service \<longrightarrow>
              fst (verifyAttestation toy_ledger toy_runtime toy_service ''evil'' initial_world)
                = Inr (invalid ''Attestation account is not owned by expected program'')
              \<and> fst (verifyAttestation toy_ledger toy_runtime toy_service ''evil'' initial_world)
                \<noteq> Inr (invalid ''Attestation account not found'')"
    using verifyAttestation_absent_or_wrong_owner [OF e toy_keys(2), of toy_ledger initial_world toy_service]
    by (rule conjunct2)
  have prem: "getAccountInfo_r toy_ledger (calls_getAccountInfo initial_world) (toy_key ''evil'')
              = Inr (Some \<lparr> owner = toy_key ''mine'', acc_data = ''{good}'' \<rparr>)
            \<and> owner \<lparr> owner = toy_key ''mine'', acc_data = ''{good}'' \<rparr> \<noteq> programId toy_service"
    using toy_keys(4,5) c by simp
  have b: "fst (verifyAttestation toy_ledger toy_runtime toy_service ''evil'' initial_world)
     = Inr (invalid ''Attestation account is not owned by expected program'')
   \<and> fst (verifyAttestation toy_ledger toy_runtime toy_service ''evil'' initial_world)
     \<noteq> Inr (invalid ''Attestation account not found'')"
    by (rule imp [THEN spec, THEN mp, OF prem])
  from a b show ?thesis by (rule conjI)
qed

text \<open>
  What \<open>batchVerifyAttestations\<close> does for every list of addresses: it returns an object
  and throws nothing; the own properties of the object are the input addresses other than
  \<open>__proto__\<close>; every property is the outcome of a run of \<open>verifyAttestation\<close> on its own
  address, whatever happened to the other addresses. The call is the run over the
  consecutive chunks of 10 addresses (the last one possibly shorter, none empty, together
  the whole list) with a sleep of 500 ms between two chunks, so the pauses number one less
  than the chunks.
\<close>

lemma batchVerifyAttestations_chunks_and_entries:
  "(\<exists>m w'. batchVerifyAttestations env rt svc attestationAddresses w = (Inr m, w')
      \<and> dom (own_properties m) = set attestationAddresses - {''__proto__''}
      \<and> sleeps w' = sleeps w @ replicate ((length attestationAddresses - 1) div BATCH_SIZE) 500
      \<and> (\<forall>a r. own_properties m a = Some r \<longrightarrow> verified env rt svc a r))
   \<and> batchVerifyAttestations env rt svc attestationAddresses w
       = run_chunks env rt svc (chunks_of BATCH_SIZE attestationAddresses) empty_object w
   \<and> concat (chunks_of BATCH_SIZE attestationAddresses) = attestationAddresses
   \<and> (\<forall>c \<in> set (chunks_of BATCH_SIZE attestationAddresses). c \<noteq> [] \<and> length c \<le> BATCH_SIZE)"
proof -
  have "concat (chunks_of BATCH_SIZE attestationAddresses) = attestationAddresses"
    by (simp add: chunks_of_concat BATCH_SIZE_def)
  moreover have "\<forall>c \<in> set (chunks_of BATCH_SIZE attestationAddresses). c \<noteq> [] \<and> length c \<le> BATCH_SIZE"
    using chunks_of_sizes by blast
  ultimately show ?thesis
    using batchVerifyAttestations_returns [of env rt svc attestationAddresses w]
      batchVerifyAttestations_chunked [of env rt svc attestationAddresses w]
    by blast
qed

lemma sample_results:
  "(case fst (batchVerifyAttestations toy_ledger toy_runtime toy_service sample_addresses initial_world) of
      Inl e \<Rightarrow> []
    | Inr m \<Rightarrow> map (\<lambda>a. map_option error (own_properties m a))
                [''good'', ''not an address'', ''none'', ''down'', ''zzzz''])
   = [Some None, Some (Some ''Invalid attestation address format''),
      Some (Some ''Attestation account not found''),
      Some (Some ''Verification failed: fetch failed''), None]"
  "sleeps (snd (batchVerifyAttestations toy_ledger toy_runtime toy_service sample_addresses initial_world))
   = [500]"
  by code_simp+

lemma proto_results:
  "(case fst (batchVerifyAttestations toy_ledger toy_runtime toy_service
               [''good'', ''__proto__''] initial_world) of
      Inl e \<Rightarrow> None
    | Inr m \<Rightarrow> Some (own_properties m ''__proto__'', map_option error (own_properties m ''good''),
                     prototype m))
   = Some (None, Some None, Some (invalid ''Invalid attestation address format''))"
  by code_simp

text \<open>
  C6. The code does not return a result for every input address. For the list
  \<open>['good', '__proto__']\<close> the call returns an object whose only own property is \<open>good\<close>:
  \<open>__proto__\<close> is not a well-formed address, \<open>verifyAttestation\<close> answers "Invalid
  attestation address format" for it, and \<open>results['__proto__'] = res\<close> makes that answer the
  prototype of the returned object instead of an entry of it.
\<close>

theorem proto_address_gets_no_entry:
  "\<exists>m w'. batchVerifyAttestations toy_ledger toy_runtime toy_service
             [''good'', ''__proto__''] initial_world = (Inr m, w')
      \<and> dom (own_properties m) = {''good''}
      \<and> own_properties m ''__proto__'' = None
      \<and> map_option error (own_properties m ''good'') = Some None
      \<and> prototype m = Some (invalid ''Invalid attestation address format'')"
proof -
  from batchVerifyAttestations_returns [of toy_ledger toy_runtime toy_service
      "[''good'', ''__proto__'']" initial_world]
  obtain m w' where b: "batchVerifyAttestations toy_ledger toy_runtime toy_service
        [''good'', ''__proto__''] initial_world = (Inr m, w')"
      "dom (own_properties m) = set [''good'', ''__proto__''] - {''__proto__''}"
    by blast
  have d: "dom (own_properties m) = {''good''}"
    unfolding b(2) by auto
  from proto_results b(1) have
      "own_properties m ''__proto__'' = None"
      "map_option error (own_properties m ''good'') = Some None"
      "prototype m = Some (invalid ''Invalid attestation address format'')"
    by simp_all
  with b(1) d show ?thesis by blast
qed

end
